theory Spec2Isabelle
  imports Main "HOL-Library.Sublist"
begin

section \<open>The jenkins-operator entry point: prow/cmd/jenkins-operator/main.go\<close>

text \<open>
  The file is the wiring of one process: \<open>main\<close> parses its flags, builds the clients
  and the controller, starts three goroutines (\<open>m.PushMetrics\<close>, \<open>serve\<close>, \<open>gather\<close>) and
  enters its own \<open>for { select { ... } }\<close> loop. Every package it imports is outside the
  file; what those packages return is an input of the model (the record \<open>Env\<close> for the
  start-up calls, the events of \<open>step\<close> for the calls of the running process).
  Effects are explicit: the process is a record \<open>Proc\<close> that the functions take and
  return.
\<close>

subsection \<open>Values\<close>

text \<open>A Go \<open>error\<close> that is not \<open>nil\<close>, by its message.\<close>

type_synonym error = string

text \<open>A \<open>time.Time\<close> and a \<open>time.Duration\<close>, both in nanoseconds.\<close>

type_synonym Time = int
type_synonym Duration = int

definition Second :: Duration where
  "Second = 1000000000"

subsection \<open>logrus\<close>

datatype Level = DebugLevel | InfoLevel | ErrorLevel | FatalLevel

datatype FieldValue = Str string | Err error | Dur Duration

text \<open>
  A logger is the \<open>Data\<close> of a \<open>logrus.Entry\<close>: its fields, in the order they were added.
  \<open>logrus.WithError err\<close> is \<open>WithField "error" err\<close>.
\<close>

type_synonym Fields = "(string \<times> FieldValue) list"

record Entry =
  Data :: Fields
  Level :: Level
  Message :: string

definition WithField :: "string \<Rightarrow> FieldValue \<Rightarrow> Fields \<Rightarrow> Fields" where
  "WithField k v l = l @ [(k, v)]"

definition WithError :: "error \<Rightarrow> Fields \<Rightarrow> Fields" where
  "WithError e l = WithField ''error'' (Err e) l"

text \<open>Line 65: \<open>logger := logrus.WithField("component", "jenkins-operator")\<close>.\<close>

definition logger :: Fields where
  "logger = WithField ''component'' (Str ''jenkins-operator'') []"

subsection \<open>The configuration\<close>

text \<open>The flags of lines 45-60, after \<open>flag.Parse()\<close>.\<close>

record Flags =
  configPath :: string
  selector :: string
  jenkinsURL :: string
  jenkinsUserName :: string
  jenkinsTokenFile :: string
  jenkinsBearerTokenFile :: string
  certFile :: string
  keyFile :: string
  caCertFile :: string
  githubEndpoint :: string
  githubTokenFile :: string
  dryRun :: bool

text \<open>The two parts of \<open>config.Config\<close> that \<open>main\<close> reads.\<close>

record PushGatewayConfig =
  Endpoint :: string
  Interval :: Duration

record Config =
  ProwJobNamespace :: string
  PushGateway :: PushGatewayConfig

subsection \<open>The clients\<close>

record BasicAuthConfig =
  User :: string
  Token :: string

record BearerTokenAuthConfig =
  Token :: string

record AuthConfig =
  Basic :: "BasicAuthConfig option"
  BearerToken :: "BearerTokenAuthConfig option"

text \<open>A parsed certificate is opaque: whatever the crypto packages return.\<close>

type_synonym Certificate = string

record tls_Config =
  Certificates :: "Certificate list"
  RootCAs :: "Certificate list option"
  NameToCertificate :: "(string \<times> Certificate) list"

text \<open>What \<open>jenkins.NewClient\<close>, \<open>github.NewClient\<close> / \<open>github.NewDryRunClient\<close> and
  \<open>jenkins.NewController\<close> are given.\<close>

record jenkins_Client =
  baseURL :: string
  tlsConfig :: "tls_Config option"
  authConfig :: AuthConfig

record github_Client =
  dry :: bool
  token :: string
  base :: string

record Controller =
  kc :: string
  jc :: jenkins_Client
  ghc :: github_Client
  labelSelector :: string

subsection \<open>The packages \<open>main\<close> calls while it starts\<close>

text \<open>
  Each field is the result of one imported function, as a function of its arguments.
  An \<open>error option\<close> is Go's \<open>error\<close> (\<open>None\<close> is \<open>nil\<close>); a sum is a pair of a
  value and an error, \<open>Inl\<close> the error. \<open>agent_Config n\<close> is what the \<open>n\<close>-th call of
  \<open>configAgent.Config()\<close> returns (the agent may reload its file between two calls).
\<close>

record Env =
  labels_Parse :: "string \<Rightarrow> error option"
  agent_Start :: "string \<Rightarrow> error option"
  agent_Config :: "nat \<Rightarrow> Config"
  NewClientInCluster :: "string \<Rightarrow> error option"
  files :: "string \<Rightarrow> error + string"
  LoadX509KeyPair :: "string \<Rightarrow> string \<Rightarrow> error + Certificate"
  certsFromPEM :: "string \<Rightarrow> Certificate list"
  certNames :: "Certificate \<Rightarrow> string list"
  url_Parse :: "string \<Rightarrow> error option"

subsection \<open>The process\<close>

text \<open>The three \<open>go\<close> statements of \<open>main\<close> (lines 136, 141, 143).\<close>

datatype Goroutine = PushMetrics string string Duration | Serve | Gather

text \<open>Where a loop stands: not entered yet, at its \<open>select\<close>, inside the call of its
  tick branch (\<open>c.Sync()\<close>, \<open>c.SyncMetrics()\<close>), in its signal branch before its
  \<open>return\<close> (\<open>main\<close>, between lines 160 and 161), or returned.\<close>

datatype PC = NotStarted | AtSelect | InCall | Leaving | Returned

text \<open>
  \<open>Output\<close>: the entries given to \<open>logrus\<close>, oldest first. \<open>ReadFileCalls\<close>: the paths given to
  \<open>ioutil.ReadFile\<close>, in order. \<open>Started\<close>: the goroutines started, in order.
  \<open>Exit\<close>: the exit status once the process has ended (\<open>logrus\<close>'s \<open>Fatal\<close> ends it with
  status 1; a return of \<open>main\<close> ends it with status 0).
  For each of the two loops: its control point, whether its \<open>tick\<close> channel and its
  \<open>sig\<close> channel hold a value (\<open>time.Tick\<close>'s channel and \<open>make(chan os.Signal, 1)\<close>
  both have capacity 1), the period given to \<open>time.Tick\<close>, and the \<open>start\<close> of the
  call in progress. \<open>ResyncPeriod\<close>: the observations of \<open>metrics.ResyncPeriod\<close>.
\<close>

record Proc =
  Output :: "Entry list"
  ReadFileCalls :: "string list"
  Started :: "Goroutine list"
  Exit :: "int option"
  mainPC :: PC
  mainTick :: bool
  mainSig :: bool
  mainPeriod :: Duration
  mainStart :: Time
  gatherPC :: PC
  gatherTick :: bool
  gatherSig :: bool
  gatherPeriod :: Duration
  gatherStart :: Time
  ResyncPeriod :: "Duration list"

text \<open>The process before \<open>main\<close> runs: nothing written, no goroutine, no loop entered.\<close>

definition initial :: Proc where
  "initial = \<lparr>Output = [], ReadFileCalls = [], Started = [], Exit = None,
     mainPC = NotStarted, mainTick = False, mainSig = False, mainPeriod = 0, mainStart = 0,
     gatherPC = NotStarted, gatherTick = False, gatherSig = False, gatherPeriod = 0,
     gatherStart = 0, ResyncPeriod = []\<rparr>"

definition log :: "Fields \<Rightarrow> Level \<Rightarrow> string \<Rightarrow> Proc \<Rightarrow> Proc" where
  "log l lv m p = p\<lparr>Output := Output p @ [\<lparr>Data = l, Level = lv, Message = m\<rparr>]\<rparr>"

text \<open>\<open>Fatal\<close> and \<open>Fatalf\<close> write the entry, then call \<open>os.Exit(1)\<close>.\<close>

definition Fatal :: "Fields \<Rightarrow> string \<Rightarrow> Proc \<Rightarrow> Proc" where
  "Fatal l m p = (log l FatalLevel m p)\<lparr>Exit := Some 1\<rparr>"

definition go :: "Goroutine \<Rightarrow> Proc \<Rightarrow> Proc" where
  "go g p = p\<lparr>Started := Started p @ [g]\<rparr>"

definition ReadFile :: "Env \<Rightarrow> string \<Rightarrow> Proc \<Rightarrow> (error + string) \<times> Proc" where
  "ReadFile env file p = (files env file, p\<lparr>ReadFileCalls := ReadFileCalls p @ [file]\<rparr>)"

subsection \<open>\<open>bytes.TrimSpace\<close>\<close>

text \<open>
  \<open>bytes.TrimSpace\<close> slices off all leading and trailing white space, as defined by
  Unicode, of a UTF-8 byte slice. \<open>spaceRunes\<close> lists the UTF-8 encodings of the runes
  for which \<open>unicode.IsSpace\<close> holds: tab, LF, VT, FF, CR, space, U+0085, U+00A0, U+1680,
  U+2000 to U+200A, U+2028, U+2029, U+202F, U+205F, U+3000.
\<close>

definition spaceRunes :: "string list" where
  "spaceRunes =
     [[CHR 0x09], [CHR 0x0A], [CHR 0x0B], [CHR 0x0C], [CHR 0x0D], [CHR 0x20],
      [CHR 0xC2, CHR 0x85], [CHR 0xC2, CHR 0xA0],
      [CHR 0xE1, CHR 0x9A, CHR 0x80],
      [CHR 0xE2, CHR 0x80, CHR 0x80], [CHR 0xE2, CHR 0x80, CHR 0x81],
      [CHR 0xE2, CHR 0x80, CHR 0x82], [CHR 0xE2, CHR 0x80, CHR 0x83],
      [CHR 0xE2, CHR 0x80, CHR 0x84], [CHR 0xE2, CHR 0x80, CHR 0x85],
      [CHR 0xE2, CHR 0x80, CHR 0x86], [CHR 0xE2, CHR 0x80, CHR 0x87],
      [CHR 0xE2, CHR 0x80, CHR 0x88], [CHR 0xE2, CHR 0x80, CHR 0x89],
      [CHR 0xE2, CHR 0x80, CHR 0x8A],
      [CHR 0xE2, CHR 0x80, CHR 0xA8], [CHR 0xE2, CHR 0x80, CHR 0xA9],
      [CHR 0xE2, CHR 0x80, CHR 0xAF], [CHR 0xE2, CHR 0x81, CHR 0x9F],
      [CHR 0xE3, CHR 0x80, CHR 0x80]]"

text \<open>Drop from the front of \<open>s\<close>, as long as there is one, an element of \<open>rs\<close> that \<open>s\<close>
  starts with.\<close>

function trimPrefixes :: "string list \<Rightarrow> string \<Rightarrow> string" where
  "trimPrefixes rs s =
     (case find (\<lambda>r. r \<noteq> [] \<and> prefix r s) rs of
        None \<Rightarrow> s
      | Some r \<Rightarrow> trimPrefixes rs (drop (length r) s))"
  by pat_completeness auto
termination
  by (relation "measure (\<lambda>(rs, s). length s)") (auto simp: find_Some_iff prefix_def)

declare trimPrefixes.simps [simp del]

definition TrimLeft :: "string \<Rightarrow> string" where
  "TrimLeft s = trimPrefixes spaceRunes s"

definition TrimRight :: "string \<Rightarrow> string" where
  "TrimRight s = rev (trimPrefixes (map rev spaceRunes) (rev s))"

definition TrimSpace :: "string \<Rightarrow> string" where
  "TrimSpace s = TrimRight (TrimLeft s)"

subsection \<open>\<open>loadToken\<close> (lines 166-172) and \<open>loadCerts\<close> (lines 174-196)\<close>

definition loadToken :: "Env \<Rightarrow> string \<Rightarrow> Proc \<Rightarrow> (error + string) \<times> Proc" where
  "loadToken env file p =
     (case ReadFile env file p of
        (Inl e, p') \<Rightarrow> (Inl e, p')
      | (Inr raw, p') \<Rightarrow> (Inr (TrimSpace raw), p'))"

text \<open>\<open>tlsConfig.BuildNameToCertificate()\<close>: the index of the certificates by the names
  each one carries.\<close>

definition BuildNameToCertificate :: "Env \<Rightarrow> tls_Config \<Rightarrow> tls_Config" where
  "BuildNameToCertificate env t =
     t\<lparr>NameToCertificate :=
         concat (map (\<lambda>c. map (\<lambda>n. (n, c)) (certNames env c)) (Certificates t))\<rparr>"

text \<open>The result of \<open>caCertPool.AppendCertsFromPEM\<close> is not looked at (line 190).\<close>

definition loadCerts ::
  "Env \<Rightarrow> string \<Rightarrow> string \<Rightarrow> string \<Rightarrow> Proc \<Rightarrow> (error + tls_Config) \<times> Proc" where
  "loadCerts env certFile' keyFile' caCertFile' p =
     (case LoadX509KeyPair env certFile' keyFile' of
        Inl e \<Rightarrow> (Inl e, p)
      | Inr cert \<Rightarrow>
          (let t = \<lparr>Certificates = [cert], RootCAs = None, NameToCertificate = []\<rparr> in
           if caCertFile' \<noteq> [] then
             (case ReadFile env caCertFile' p of
                (Inl e, p') \<Rightarrow> (Inl e, p')
              | (Inr caCert, p') \<Rightarrow>
                  (Inr (BuildNameToCertificate env
                          (t\<lparr>RootCAs := Some ([] @ certsFromPEM env caCert)\<rparr>)), p'))
           else (Inr (BuildNameToCertificate env t), p)))"

subsection \<open>\<open>main\<close>, until its loop (lines 62-147)\<close>

text \<open>
  A part of \<open>main\<close> returns \<open>None\<close> when it has ended the process with \<open>Fatal\<close>, and
  its value otherwise.

  Lines 81-101: the authentication of the Jenkins client.
\<close>

definition main_auth :: "Env \<Rightarrow> Flags \<Rightarrow> Proc \<Rightarrow> AuthConfig option \<times> Proc" where
  "main_auth env f p =
     (if jenkinsTokenFile f \<noteq> [] then
        (case loadToken env (jenkinsTokenFile f) p of
           (Inl e, p') \<Rightarrow> (None, Fatal (WithError e logger) ''Could not read token file.'' p')
         | (Inr tok, p') \<Rightarrow>
             (Some \<lparr>Basic = Some \<lparr>User = jenkinsUserName f, Token = tok\<rparr>,
                    BearerToken = None\<rparr>, p'))
      else if jenkinsBearerTokenFile f \<noteq> [] then
        (case loadToken env (jenkinsBearerTokenFile f) p of
           (Inl e, p') \<Rightarrow>
             (None, Fatal (WithError e logger) ''Could not read bearer token file.'' p')
         | (Inr tok, p') \<Rightarrow>
             (Some \<lparr>Basic = None, BearerToken = Some \<lparr>Token = tok\<rparr>\<rparr>, p'))
      else
        (None, Fatal logger ''An auth token for basic or bearer token auth must be supplied.'' p))"

text \<open>Lines 102-109: \<open>tlsConfig\<close>, \<open>nil\<close> unless both files are named.\<close>

definition main_tls :: "Env \<Rightarrow> Flags \<Rightarrow> Proc \<Rightarrow> tls_Config option option \<times> Proc" where
  "main_tls env f p =
     (if certFile f \<noteq> [] \<and> keyFile f \<noteq> [] then
        (case loadCerts env (certFile f) (keyFile f) (caCertFile f) p of
           (Inl e, p') \<Rightarrow>
             (None, Fatal (WithError e logger) ''Could not read certificate files.'' p')
         | (Inr config, p') \<Rightarrow> (Some (Some config), p'))
      else (Some None, p))"

text \<open>Lines 113-143: the GitHub client, the controller and the three goroutines.\<close>

definition main_clients ::
  "Env \<Rightarrow> Flags \<Rightarrow> string \<Rightarrow> jenkins_Client \<Rightarrow> Proc \<Rightarrow> Controller option \<times> Proc" where
  "main_clients env f kc' jc' p =
     (case ReadFile env (githubTokenFile f) p of
        (Inl e, p') \<Rightarrow>
          (None, Fatal (WithError e logger) ''Could not read Github oauth secret file.'' p')
      | (Inr oauthSecretRaw, p') \<Rightarrow>
          (let oauthSecret = TrimSpace oauthSecretRaw in
           case url_Parse env (githubEndpoint f) of
             Some e \<Rightarrow>
               (None, Fatal (WithError e logger) ''Must specify a valid --github-endpoint URL.'' p')
           | None \<Rightarrow>
               (let ghc' = \<lparr>dry = dryRun f, token = oauthSecret, base = githubEndpoint f\<rparr>;
                    c = \<lparr>kc = kc', jc = jc', ghc = ghc', labelSelector = selector f\<rparr>;
                    pushGateway = PushGateway (agent_Config env 1);
                    p1 = (if Endpoint pushGateway \<noteq> []
                          then go (PushMetrics ''jenkins-operator'' (Endpoint pushGateway)
                                     (Interval pushGateway)) p'
                          else p');
                    p2 = go Serve p1;
                    p3 = go Gather p2
                in (Some c, p3))))"

text \<open>
  Lines 62-147. \<open>kube.NewClientInCluster\<close> is given the namespace of the first
  \<open>configAgent.Config()\<close>. After the goroutines, \<open>main\<close> makes its ticker of
  \<open>30 * time.Second\<close> and its signal channel and stands at its \<open>select\<close>.
\<close>

definition main :: "Env \<Rightarrow> Flags \<Rightarrow> Proc \<Rightarrow> Controller option \<times> Proc" where
  "main env f p =
     (case labels_Parse env (selector f) of
        Some e \<Rightarrow> (None, Fatal (WithError e logger) ''Error parsing label selector.'' p)
      | None \<Rightarrow>
     (case agent_Start env (configPath f) of
        Some e \<Rightarrow> (None, Fatal (WithError e logger) ''Error starting config agent.'' p)
      | None \<Rightarrow>
     (case NewClientInCluster env (ProwJobNamespace (agent_Config env 0)) of
        Some e \<Rightarrow> (None, Fatal (WithError e logger) ''Error getting kube client.'' p)
      | None \<Rightarrow>
     (case main_auth env f p of
        (None, p1) \<Rightarrow> (None, p1)
      | (Some ac, p1) \<Rightarrow>
     (case main_tls env f p1 of
        (None, p2) \<Rightarrow> (None, p2)
      | (Some tlsConfig', p2) \<Rightarrow>
     (let jc' = \<lparr>baseURL = jenkinsURL f, tlsConfig = tlsConfig', authConfig = ac\<rparr> in
      case main_clients env f (ProwJobNamespace (agent_Config env 0)) jc' p2 of
        (None, p3) \<Rightarrow> (None, p3)
      | (Some c, p3) \<Rightarrow>
          (Some c, p3\<lparr>mainPC := AtSelect, mainTick := False, mainSig := False,
                      mainPeriod := 30 * Second\<rparr>)))))))"

subsection \<open>The loop of \<open>main\<close> (lines 149-163)\<close>

text \<open>
  The tick branch is in two parts, before and after the call of \<open>c.Sync()\<close>, which
  belongs to the controller and returns when it returns. Line 152 reads the clock
  (\<open>now\<close>); so does \<open>time.Since(start)\<close> on line 156. The observation is
  \<open>duration.Seconds()\<close>; the model keeps the duration itself.
\<close>

definition main_tick_begin :: "Time \<Rightarrow> Proc \<Rightarrow> Proc" where
  "main_tick_begin now p = p\<lparr>mainTick := False, mainStart := now, mainPC := InCall\<rparr>"

definition main_tick_end :: "error option \<Rightarrow> Time \<Rightarrow> Proc \<Rightarrow> Proc" where
  "main_tick_end err now p =
     (let p1 = (case err of
                  Some e \<Rightarrow> log (WithError e logger) ErrorLevel ''Error syncing.'' p
                | None \<Rightarrow> p);
          duration = now - mainStart p1;
          p2 = log (WithField ''duration'' (Dur duration) logger) InfoLevel ''Synced'' p1;
          p3 = p2\<lparr>ResyncPeriod := ResyncPeriod p2 @ [duration]\<rparr>
      in p3\<lparr>mainPC := AtSelect\<rparr>)"

text \<open>
  The signal branch is in two parts. Lines 159-160: \<open>main\<close> takes the signal off its
  channel and writes its line; the process is still running, and so are its other
  goroutines. Line 161: \<open>main\<close> returns, and a Go program exits when \<open>main\<close> returns,
  without waiting for its other goroutines.
\<close>

definition main_sig :: "Proc \<Rightarrow> Proc" where
  "main_sig p =
     (log logger InfoLevel ''Jenkins operator is shutting down...'' (p\<lparr>mainSig := False\<rparr>))
       \<lparr>mainPC := Leaving\<rparr>"

definition main_return :: "Proc \<Rightarrow> Proc" where
  "main_return p = p\<lparr>mainPC := Returned, Exit := Some 0\<rparr>"

subsection \<open>\<open>serve\<close> (lines 201-205) and \<open>gather\<close> (lines 209-225)\<close>

text \<open>
  \<open>http.ListenAndServe(":8080", nil)\<close> blocks while the server runs, and returns an
  error that is never \<open>nil\<close>: the port could not be bound, or the listener ended.
  \<open>serve\<close> gives it to \<open>logrus.WithError(...).Fatal\<close>, on the standard logger.
\<close>

definition serve :: "error \<Rightarrow> Proc \<Rightarrow> Proc" where
  "serve e p = Fatal (WithError e []) ''ListenAndServe returned.'' p"

text \<open>Lines 210-212: the ticker and the signal channel of \<open>gather\<close>.\<close>

definition gather_enter :: "Proc \<Rightarrow> Proc" where
  "gather_enter p =
     p\<lparr>gatherPC := AtSelect, gatherTick := False, gatherSig := False,
       gatherPeriod := 30 * Second\<rparr>"

definition gather_tick_begin :: "Time \<Rightarrow> Proc \<Rightarrow> Proc" where
  "gather_tick_begin now p = p\<lparr>gatherTick := False, gatherStart := now, gatherPC := InCall\<rparr>"

definition gather_tick_end :: "Time \<Rightarrow> Proc \<Rightarrow> Proc" where
  "gather_tick_end now p =
     (log (WithField ''metrics-duration'' (Dur (now - gatherStart p)) logger)
        DebugLevel ''Metrics synced'' p)\<lparr>gatherPC := AtSelect\<rparr>"

definition gather_sig :: "Proc \<Rightarrow> Proc" where
  "gather_sig p =
     (log logger DebugLevel ''Jenkins operator gatherer is shutting down...''
        (p\<lparr>gatherSig := False\<rparr>))\<lparr>gatherPC := Returned\<rparr>"

subsection \<open>The running process\<close>

text \<open>The two signals given to \<open>signal.Notify\<close> (\<open>os.Interrupt\<close> is SIGINT).\<close>

datatype Signal = SIGINT | SIGTERM

text \<open>
  What can happen to the process once \<open>main\<close> stands at its \<open>select\<close>:
  \<^item> \<open>Deliver s\<close>: the signal \<open>s\<close> arrives; \<open>signal.Notify\<close> puts it, without blocking, on
    every channel registered for it;
  \<^item> \<open>MainTicker\<close>, \<open>GatherTicker\<close>: a ticker fires and puts the time on its channel,
    without blocking;
  \<^item> \<open>MainSelectTick now\<close>, \<open>MainSelectSig\<close>, \<open>GatherSelectTick now\<close>, \<open>GatherSelectSig\<close>: a
    \<open>select\<close> takes the branch named. Go chooses among the branches that can proceed by
    a uniform pseudo-random selection, so each of them is possible;
  \<^item> \<open>MainReturns\<close>: \<open>main\<close>, having taken the signal and written its line, returns
    (line 161);
  \<^item> \<open>SyncReturns err now\<close>, \<open>SyncMetricsReturns now\<close>: the call of the controller returns;
  \<^item> \<open>GatherEnters\<close>: the goroutine of \<open>gather\<close> runs lines 210-212;
  \<^item> \<open>ListenAndServeReturns e\<close>: in the goroutine of \<open>serve\<close>, line 204.
\<close>

datatype Event =
    Deliver Signal
  | MainTicker
  | MainSelectTick Time
  | SyncReturns "error option" Time
  | MainSelectSig
  | MainReturns
  | GatherEnters
  | GatherTicker
  | GatherSelectTick Time
  | SyncMetricsReturns Time
  | GatherSelectSig
  | ListenAndServeReturns error

text \<open>The process runs from the \<open>select\<close> of \<open>main\<close> until it exits.\<close>

definition alive :: "Proc \<Rightarrow> bool" where
  "alive p = (Exit p = None \<and> mainPC p \<noteq> NotStarted)"

text \<open>\<open>enabled ev p\<close>: the event can happen in \<open>p\<close>.\<close>

fun enabled :: "Event \<Rightarrow> Proc \<Rightarrow> bool" where
  "enabled (Deliver s) p = alive p"
| "enabled MainTicker p = alive p"
| "enabled (MainSelectTick now) p = (alive p \<and> mainPC p = AtSelect \<and> mainTick p)"
| "enabled (SyncReturns err now) p = (alive p \<and> mainPC p = InCall)"
| "enabled MainSelectSig p = (alive p \<and> mainPC p = AtSelect \<and> mainSig p)"
| "enabled MainReturns p = (alive p \<and> mainPC p = Leaving)"
| "enabled GatherEnters p = (alive p \<and> Gather \<in> set (Started p) \<and> gatherPC p = NotStarted)"
| "enabled GatherTicker p = (alive p \<and> gatherPC p \<noteq> NotStarted)"
| "enabled (GatherSelectTick now) p = (alive p \<and> gatherPC p = AtSelect \<and> gatherTick p)"
| "enabled (SyncMetricsReturns now) p = (alive p \<and> gatherPC p = InCall)"
| "enabled GatherSelectSig p = (alive p \<and> gatherPC p = AtSelect \<and> gatherSig p)"
| "enabled (ListenAndServeReturns e) p = (alive p \<and> Serve \<in> set (Started p))"

fun effect :: "Event \<Rightarrow> Proc \<Rightarrow> Proc" where
  "effect (Deliver s) p =
     p\<lparr>mainSig := True,
       gatherSig := (if gatherPC p = NotStarted then gatherSig p else True)\<rparr>"
| "effect MainTicker p = p\<lparr>mainTick := True\<rparr>"
| "effect (MainSelectTick now) p = main_tick_begin now p"
| "effect (SyncReturns err now) p = main_tick_end err now p"
| "effect MainSelectSig p = main_sig p"
| "effect MainReturns p = main_return p"
| "effect GatherEnters p = gather_enter p"
| "effect GatherTicker p = p\<lparr>gatherTick := True\<rparr>"
| "effect (GatherSelectTick now) p = gather_tick_begin now p"
| "effect (SyncMetricsReturns now) p = gather_tick_end now p"
| "effect GatherSelectSig p = gather_sig p"
| "effect (ListenAndServeReturns e) p = serve e p"

definition step :: "Event \<Rightarrow> Proc \<Rightarrow> Proc option" where
  "step ev p = (if enabled ev p then Some (effect ev p) else None)"

text \<open>A sequence of events, from \<open>p\<close>: \<open>None\<close> when one of them cannot happen.\<close>

fun run :: "Event list \<Rightarrow> Proc \<Rightarrow> Proc option" where
  "run [] p = Some p"
| "run (ev # evs) p = (case step ev p of None \<Rightarrow> None | Some p' \<Rightarrow> run evs p')"

text \<open>The HTTP server answers requests while the goroutine of \<open>serve\<close> runs in a
  process that has not exited.\<close>

definition serving :: "Proc \<Rightarrow> bool" where
  "serving p = (Exit p = None \<and> Serve \<in> set (Started p))"

text \<open>A goroutine of \<open>m.PushMetrics\<close> has been started.\<close>

fun isPushMetrics :: "Goroutine \<Rightarrow> bool" where
  "isPushMetrics (PushMetrics job endpoint interval) = True"
| "isPushMetrics Serve = False"
| "isPushMetrics Gather = False"

definition pushing :: "Proc \<Rightarrow> bool" where
  "pushing p = list_ex isPushMetrics (Started p)"

text \<open>The goroutines of lines 135-137: one, if the second \<open>configAgent.Config()\<close> names an
  endpoint.\<close>

definition pushes :: "Env \<Rightarrow> Goroutine list" where
  "pushes env =
     (let g = PushGateway (agent_Config env 1) in
      if Endpoint g \<noteq> []
      then [PushMetrics ''jenkins-operator'' (Endpoint g) (Interval g)] else [])"

text \<open>Both tickers have the period of lines 145 and 210; the ticker of \<open>gather\<close> exists
  once \<open>gather\<close> has been entered.\<close>

definition periods :: "Proc \<Rightarrow> bool" where
  "periods p = (mainPeriod p = 30 * Second \<and>
     (if gatherPC p = NotStarted then True else gatherPeriod p = 30 * Second))"

subsection \<open>White space stripped, as a specification\<close>

text \<open>A byte string made of white-space runes only.\<close>

inductive spaces :: "string \<Rightarrow> bool" where
  spaces_Nil: "spaces []"
| spaces_App: "r \<in> set spaceRunes \<Longrightarrow> spaces s \<Longrightarrow> spaces (r @ s)"

definition startsWithSpace :: "string \<Rightarrow> bool" where
  "startsWithSpace s = list_ex (\<lambda>r. prefix r s) spaceRunes"

definition endsWithSpace :: "string \<Rightarrow> bool" where
  "endsWithSpace s = list_ex (\<lambda>r. suffix r s) spaceRunes"

text \<open>\<open>stripped raw tok\<close>: \<open>tok\<close> is \<open>raw\<close> without its leading and its trailing white
  space.\<close>

definition stripped :: "string \<Rightarrow> string \<Rightarrow> bool" where
  "stripped raw tok =
     (\<exists>pre post. raw = pre @ tok @ post \<and> spaces pre \<and> spaces post \<and>
        \<not> startsWithSpace tok \<and> \<not> endsWithSpace tok)"

subsection \<open>A deployment\<close>

text \<open>The default values of the flags (lines 46-59); \<open>kube.EmptySelector\<close> is the empty
  string.\<close>

definition defaults :: Flags where
  "defaults = \<lparr>configPath = ''/etc/config/config'', selector = [],
     jenkinsURL = ''http://jenkins-proxy'', jenkinsUserName = ''jenkins-trigger'',
     jenkinsTokenFile = [], jenkinsBearerTokenFile = [],
     certFile = [], keyFile = [], caCertFile = [],
     githubEndpoint = ''https://api.github.com'', githubTokenFile = ''/etc/github/oauth'',
     dryRun = True\<rparr>"

text \<open>A cluster in which every call succeeds; three secrets are mounted, each ending
  in a newline, and a push gateway is configured.\<close>

definition cluster :: Env where
  "cluster = \<lparr>labels_Parse = (\<lambda>s. None), agent_Start = (\<lambda>path. None),
     agent_Config = (\<lambda>n. \<lparr>ProwJobNamespace = ''default'',
        PushGateway = \<lparr>Endpoint = ''http://pushgateway'', Interval = 60 * Second\<rparr>\<rparr>),
     NewClientInCluster = (\<lambda>ns. None),
     files = (\<lambda>path.
        if path = ''/etc/jenkins/token'' then Inr ('' abc'' @ [CHR 0x0A])
        else if path = ''/etc/jenkins/bearer'' then Inr (''xyz'' @ [CHR 0x0A])
        else if path = ''/etc/github/oauth'' then Inr (''oauth'' @ [CHR 0x0A])
        else Inl ''no such file or directory''),
     LoadX509KeyPair = (\<lambda>cert key. Inr (cert @ ''+'' @ key)),
     certsFromPEM = (\<lambda>pem. [pem]),
     certNames = (\<lambda>cert. []),
     url_Parse = (\<lambda>u. None)\<rparr>"

text \<open>The same cluster with no push gateway in its configuration.\<close>

definition quiet :: Env where
  "quiet = cluster\<lparr>agent_Config := (\<lambda>n. \<lparr>ProwJobNamespace = ''default'',
        PushGateway = \<lparr>Endpoint = [], Interval = 0\<rparr>\<rparr>)\<rparr>"

definition basic :: Flags where
  "basic = defaults\<lparr>jenkinsTokenFile := ''/etc/jenkins/token''\<rparr>"

definition bearer :: Flags where
  "bearer = defaults\<lparr>jenkinsBearerTokenFile := ''/etc/jenkins/bearer''\<rparr>"

definition both :: Flags where
  "both = basic\<lparr>jenkinsBearerTokenFile := ''/etc/jenkins/bearer''\<rparr>"

text \<open>The process of \<open>basic\<close> in \<open>cluster\<close>, as \<open>main\<close> leaves it at its \<open>select\<close>.\<close>

definition operator :: Proc where
  "operator = snd (main cluster basic initial)"

section \<open>Properties of the start-up\<close>

subsection \<open>\<open>bytes.TrimSpace\<close> strips white space\<close>

lemma trimPrefixes_decomp:
  "\<exists>ps. set ps \<subseteq> set rs \<and> s = concat ps @ trimPrefixes rs s"
proof (induction rs s rule: trimPrefixes.induct)
  case (1 rs s)
  show ?case
  proof (cases "find (\<lambda>r. r \<noteq> [] \<and> prefix r s) rs")
    case None
    then have "trimPrefixes rs s = s" by (simp add: trimPrefixes.simps)
    then have "set [] \<subseteq> set rs \<and> s = concat [] @ trimPrefixes rs s" by simp
    then show ?thesis by blast
  next
    case (Some r)
    then have r: "r \<in> set rs" "prefix r s"
      by (auto simp: find_Some_iff)
    from Some have eq: "trimPrefixes rs s = trimPrefixes rs (drop (length r) s)"
      by (simp add: trimPrefixes.simps)
    from "1.IH" [OF Some] obtain ps where ps: "set ps \<subseteq> set rs"
      "drop (length r) s = concat ps @ trimPrefixes rs (drop (length r) s)" by blast
    from r have "s = r @ drop (length r) s" by (auto simp: prefix_def)
    with ps eq have "set (r # ps) \<subseteq> set rs \<and> s = concat (r # ps) @ trimPrefixes rs s"
      using r(1) by simp
    then show ?thesis by blast
  qed
qed

lemma trimPrefixes_done:
  "r \<in> set rs \<Longrightarrow> r \<noteq> [] \<Longrightarrow> \<not> prefix r (trimPrefixes rs s)"
proof (induction rs s rule: trimPrefixes.induct)
  case (1 rs s)
  show ?case
  proof (cases "find (\<lambda>r. r \<noteq> [] \<and> prefix r s) rs")
    case None
    then have "trimPrefixes rs s = s" by (simp add: trimPrefixes.simps)
    moreover from None "1.prems" have "\<not> prefix r s" by (auto simp: find_None_iff)
    ultimately show ?thesis by simp
  next
    case (Some q)
    then have "trimPrefixes rs s = trimPrefixes rs (drop (length q) s)"
      by (simp add: trimPrefixes.simps)
    with "1.IH" [OF Some] "1.prems" show ?thesis by simp
  qed
qed

lemma spaces_concat: "set ps \<subseteq> set spaceRunes \<Longrightarrow> spaces (concat ps)"
  by (induction ps) (auto intro: spaces.intros)

lemma spaceRunes_nonempty: "r \<in> set spaceRunes \<Longrightarrow> r \<noteq> []"
  by (auto simp: spaceRunes_def)

lemma TrimLeft_decomp: "\<exists>pre. spaces pre \<and> s = pre @ TrimLeft s"
  using trimPrefixes_decomp [of spaceRunes s] spaces_concat
  unfolding TrimLeft_def by blast

lemma TrimRight_decomp: "\<exists>post. spaces post \<and> s = TrimRight s @ post"
proof -
  obtain ps where ps: "set ps \<subseteq> set (map rev spaceRunes)"
    "rev s = concat ps @ trimPrefixes (map rev spaceRunes) (rev s)"
    using trimPrefixes_decomp [of "map rev spaceRunes" "rev s"] by blast
  from ps(2) have "rev (rev s) = rev (concat ps @ trimPrefixes (map rev spaceRunes) (rev s))"
    by simp
  then have s: "s = TrimRight s @ concat (map rev (rev ps))"
    by (simp add: TrimRight_def rev_concat)
  from ps(1) have "set (map rev (rev ps)) \<subseteq> set spaceRunes" by auto
  then have "spaces (concat (map rev (rev ps)))" by (rule spaces_concat)
  with s show ?thesis by blast
qed

lemma TrimLeft_done: "\<not> startsWithSpace (TrimLeft s)"
  using trimPrefixes_done [of _ spaceRunes s] spaceRunes_nonempty
  by (auto simp: startsWithSpace_def TrimLeft_def list_ex_iff)

lemma TrimRight_done: "\<not> endsWithSpace (TrimRight s)"
proof
  assume "endsWithSpace (TrimRight s)"
  then obtain r where r: "r \<in> set spaceRunes" "suffix r (TrimRight s)"
    by (auto simp: endsWithSpace_def list_ex_iff)
  then have "prefix (rev r) (trimPrefixes (map rev spaceRunes) (rev s))"
    by (simp add: TrimRight_def suffix_to_prefix)
  moreover from r(1) have "rev r \<in> set (map rev spaceRunes)" "rev r \<noteq> []"
    using spaceRunes_nonempty by auto
  ultimately show False using trimPrefixes_done by blast
qed

lemma TrimSpace_stripped: "stripped raw (TrimSpace raw)"
proof -
  obtain pre where pre: "spaces pre" "raw = pre @ TrimLeft raw"
    using TrimLeft_decomp by blast
  obtain post where post: "spaces post" "TrimLeft raw = TrimSpace raw @ post"
    using TrimRight_decomp [of "TrimLeft raw"] by (auto simp: TrimSpace_def)
  have "\<not> startsWithSpace (TrimSpace raw)"
  proof
    assume "startsWithSpace (TrimSpace raw)"
    then obtain r where "r \<in> set spaceRunes" "prefix r (TrimSpace raw)"
      by (auto simp: startsWithSpace_def list_ex_iff)
    with post(2) have "r \<in> set spaceRunes" "prefix r (TrimLeft raw)"
      by (auto simp: prefix_def)
    then have "startsWithSpace (TrimLeft raw)"
      by (auto simp: startsWithSpace_def list_ex_iff)
    with TrimLeft_done show False by blast
  qed
  moreover have "\<not> endsWithSpace (TrimSpace raw)"
    by (simp add: TrimSpace_def TrimRight_done)
  moreover from pre post have "raw = pre @ TrimSpace raw @ post" by simp
  ultimately show ?thesis using pre(1) post(1) unfolding stripped_def by blast
qed

subsection \<open>What each part of \<open>main\<close> leaves unchanged\<close>

lemma loadToken_eq:
  "loadToken env file p =
     (case files env file of Inl e \<Rightarrow> Inl e | Inr raw \<Rightarrow> Inr (TrimSpace raw),
      p\<lparr>ReadFileCalls := ReadFileCalls p @ [file]\<rparr>)"
  by (simp add: loadToken_def ReadFile_def split: sum.splits)

lemma Fatal_simps [simp]:
  "Exit (Fatal l m p) = Some 1"
  "Started (Fatal l m p) = Started p"
  "mainPC (Fatal l m p) = mainPC p"
  "gatherPC (Fatal l m p) = gatherPC p"
  "ReadFileCalls (Fatal l m p) = ReadFileCalls p"
  "Output (Fatal l m p) = Output p @ [\<lparr>Data = l, Level = FatalLevel, Message = m\<rparr>]"
  by (simp_all add: Fatal_def log_def)

lemma main_auth_frame:
  assumes "main_auth env f p = (r, p')"
  shows "Started p' = Started p" and "mainPC p' = mainPC p" and "gatherPC p' = gatherPC p"
    and "r = None \<Longrightarrow> Exit p' = Some 1"
    and "r \<noteq> None \<Longrightarrow> Exit p' = Exit p \<and> Output p' = Output p"
  using assms
  by (auto simp: main_auth_def loadToken_eq split: if_splits sum.splits)

lemma loadCerts_frame:
  assumes "loadCerts env a b c p = (r, p')"
  shows "Started p' = Started p" and "mainPC p' = mainPC p" and "gatherPC p' = gatherPC p"
    and "Exit p' = Exit p" and "Output p' = Output p"
  using assms
  by (auto simp: loadCerts_def ReadFile_def Let_def split: if_splits sum.splits)

lemma main_tls_frame:
  assumes "main_tls env f p = (r, p')"
  shows "Started p' = Started p" and "mainPC p' = mainPC p" and "gatherPC p' = gatherPC p"
    and "r = None \<Longrightarrow> Exit p' = Some 1"
    and "r \<noteq> None \<Longrightarrow> Exit p' = Exit p \<and> Output p' = Output p"
  using assms
  by (auto simp: main_tls_def split: if_splits sum.splits prod.splits dest: loadCerts_frame)

lemma main_clients_frame:
  assumes "main_clients env f k j p = (r, p')"
  shows "mainPC p' = mainPC p" and "gatherPC p' = gatherPC p"
    and "r = None \<Longrightarrow> Exit p' = Some 1 \<and> Started p' = Started p"
    and "r \<noteq> None \<Longrightarrow> Exit p' = Exit p \<and> Output p' = Output p \<and>
           Started p' = Started p @ pushes env @ [Serve, Gather]"
  using assms
  by (auto simp: main_clients_def ReadFile_def Let_def go_def pushes_def split: if_splits sum.splits option.splits)

lemma main_None:
  assumes "main env f p = (None, p')"
  shows "Exit p' = Some 1 \<and> Started p' = Started p \<and> mainPC p' = mainPC p \<and>
    gatherPC p' = gatherPC p"
proof (cases "labels_Parse env (selector f) = None \<and> agent_Start env (configPath f) = None \<and>
    NewClientInCluster env (ProwJobNamespace (agent_Config env 0)) = None")
  case False
  with assms show ?thesis
    by (auto simp: main_def split: option.splits)
next
  case True
  obtain r1 p1 where a: "main_auth env f p = (r1, p1)" by (cases "main_auth env f p")
  note fa = main_auth_frame [OF a]
  show ?thesis
  proof (cases r1)
    case None
    with assms True a fa show ?thesis by (simp add: main_def)
  next
    case (Some ac)
    obtain r2 p2 where t: "main_tls env f p1 = (r2, p2)" by (cases "main_tls env f p1")
    note ft = main_tls_frame [OF t]
    show ?thesis
    proof (cases r2)
      case None
      with assms True a Some t fa ft show ?thesis by (simp add: main_def)
    next
      case (Some tc)
      obtain r3 p3 where c: "main_clients env f (ProwJobNamespace (agent_Config env 0))
          \<lparr>baseURL = jenkinsURL f, tlsConfig = tc, authConfig = ac\<rparr> p2 = (r3, p3)"
        by (cases "main_clients env f (ProwJobNamespace (agent_Config env 0))
          \<lparr>baseURL = jenkinsURL f, tlsConfig = tc, authConfig = ac\<rparr> p2")
      note fc = main_clients_frame [OF c]
      from assms True a \<open>r1 = Some ac\<close> t Some c have "r3 = None" "p' = p3"
        by (auto simp: main_def split: option.splits)
      with fa ft fc show ?thesis by simp
    qed
  qed
qed

lemma main_Some:
  assumes "main env f p = (Some c, p')"
  shows "Exit p' = Exit p \<and> Output p' = Output p \<and>
    Started p' = Started p @ pushes env @ [Serve, Gather] \<and>
    mainPC p' = AtSelect \<and> mainPeriod p' = 30 * Second \<and>
    gatherPC p' = gatherPC p \<and> \<not> mainTick p' \<and> \<not> mainSig p'"
proof -
  from assms have ok: "labels_Parse env (selector f) = None"
    "agent_Start env (configPath f) = None"
    "NewClientInCluster env (ProwJobNamespace (agent_Config env 0)) = None"
    by (auto simp: main_def split: option.splits)
  obtain r1 p1 where a: "main_auth env f p = (r1, p1)" by (cases "main_auth env f p")
  with assms ok obtain ac where r1: "r1 = Some ac"
    by (cases r1) (auto simp: main_def)
  obtain r2 p2 where t: "main_tls env f p1 = (r2, p2)" by (cases "main_tls env f p1")
  with assms ok a r1 obtain tc where r2: "r2 = Some tc"
    by (cases r2) (auto simp: main_def)
  obtain r3 p3 where m: "main_clients env f (ProwJobNamespace (agent_Config env 0))
      \<lparr>baseURL = jenkinsURL f, tlsConfig = tc, authConfig = ac\<rparr> p2 = (r3, p3)"
    by (cases "main_clients env f (ProwJobNamespace (agent_Config env 0))
      \<lparr>baseURL = jenkinsURL f, tlsConfig = tc, authConfig = ac\<rparr> p2")
  with assms ok a r1 t r2 have r3: "r3 = Some c"
    and p': "p' = p3\<lparr>mainPC := AtSelect, mainTick := False, mainSig := False,
                      mainPeriod := 30 * Second\<rparr>"
    by (auto simp: main_def split: option.splits)
  note fa = main_auth_frame [OF a] and ft = main_tls_frame [OF t]
    and fc = main_clients_frame [OF m]
  from r1 r2 r3 p' fa ft fc show ?thesis by simp
qed

lemma main_SomeD:
  assumes "main env f p = (Some c, p')"
  obtains ac p1 tc p2 raw where
    "main_auth env f p = (Some ac, p1)"
    "main_tls env f p1 = (Some tc, p2)"
    "files env (githubTokenFile f) = Inr raw"
    "c = \<lparr>kc = ProwJobNamespace (agent_Config env 0),
          jc = \<lparr>baseURL = jenkinsURL f, tlsConfig = tc, authConfig = ac\<rparr>,
          ghc = \<lparr>dry = dryRun f, token = TrimSpace raw, base = githubEndpoint f\<rparr>,
          labelSelector = selector f\<rparr>"
proof -
  from assms have ok: "labels_Parse env (selector f) = None"
    "agent_Start env (configPath f) = None"
    "NewClientInCluster env (ProwJobNamespace (agent_Config env 0)) = None"
    by (auto simp: main_def split: option.splits)
  obtain r1 p1 where a: "main_auth env f p = (r1, p1)" by (cases "main_auth env f p")
  with assms ok obtain ac where r1: "r1 = Some ac"
    by (cases r1) (auto simp: main_def)
  obtain r2 p2 where t: "main_tls env f p1 = (r2, p2)" by (cases "main_tls env f p1")
  with assms ok a r1 obtain tc where r2: "r2 = Some tc"
    by (cases r2) (auto simp: main_def)
  obtain r3 p3 where m: "main_clients env f (ProwJobNamespace (agent_Config env 0))
      \<lparr>baseURL = jenkinsURL f, tlsConfig = tc, authConfig = ac\<rparr> p2 = (r3, p3)"
    by (cases "main_clients env f (ProwJobNamespace (agent_Config env 0))
      \<lparr>baseURL = jenkinsURL f, tlsConfig = tc, authConfig = ac\<rparr> p2")
  with assms ok a r1 t r2 have r3: "r3 = Some c"
    by (auto simp: main_def split: option.splits)
  from m r3 obtain raw where "files env (githubTokenFile f) = Inr raw"
    "c = \<lparr>kc = ProwJobNamespace (agent_Config env 0),
          jc = \<lparr>baseURL = jenkinsURL f, tlsConfig = tc, authConfig = ac\<rparr>,
          ghc = \<lparr>dry = dryRun f, token = TrimSpace raw, base = githubEndpoint f\<rparr>,
          labelSelector = selector f\<rparr>"
    by (auto simp: main_clients_def ReadFile_def Let_def split: sum.splits option.splits)
  with a r1 t r2 that show thesis by blast
qed

lemma main_tls_reads:
  "main_tls env f p = (Some tc, p') \<Longrightarrow>
     ReadFileCalls p' = ReadFileCalls p @
       (if certFile f \<noteq> [] \<and> keyFile f \<noteq> [] \<and> caCertFile f \<noteq> [] then [caCertFile f] else [])"
  by (auto simp: main_tls_def loadCerts_def ReadFile_def Let_def
      split: if_splits sum.splits prod.splits)

lemma main_clients_reads:
  "main_clients env f k j p = (Some c, p') \<Longrightarrow>
     ReadFileCalls p' = ReadFileCalls p @ [githubTokenFile f]"
  by (auto simp: main_clients_def ReadFile_def Let_def go_def
      split: if_splits sum.splits option.splits)

lemma main_Some_reads:
  assumes "main env f p = (Some c, p')"
  obtains ac p1 tc p2 where
    "main_auth env f p = (Some ac, p1)"
    "main_tls env f p1 = (Some tc, p2)"
    "ReadFileCalls p' = ReadFileCalls p2 @ [githubTokenFile f]"
    "authConfig (jc c) = ac"
proof -
  from assms have ok: "labels_Parse env (selector f) = None"
    "agent_Start env (configPath f) = None"
    "NewClientInCluster env (ProwJobNamespace (agent_Config env 0)) = None"
    by (auto simp: main_def split: option.splits)
  obtain r1 p1 where a: "main_auth env f p = (r1, p1)" by (cases "main_auth env f p")
  with assms ok obtain ac where r1: "r1 = Some ac"
    by (cases r1) (auto simp: main_def)
  obtain r2 p2 where t: "main_tls env f p1 = (r2, p2)" by (cases "main_tls env f p1")
  with assms ok a r1 obtain tc where r2: "r2 = Some tc"
    by (cases r2) (auto simp: main_def)
  obtain r3 p3 where m: "main_clients env f (ProwJobNamespace (agent_Config env 0))
      \<lparr>baseURL = jenkinsURL f, tlsConfig = tc, authConfig = ac\<rparr> p2 = (r3, p3)"
    by (cases "main_clients env f (ProwJobNamespace (agent_Config env 0))
      \<lparr>baseURL = jenkinsURL f, tlsConfig = tc, authConfig = ac\<rparr> p2")
  with assms ok a r1 t r2 have r3: "r3 = Some c"
    and p': "p' = p3\<lparr>mainPC := AtSelect, mainTick := False, mainSig := False,
                      mainPeriod := 30 * Second\<rparr>"
    by (auto simp: main_def split: option.splits)
  from m r3 have "ReadFileCalls p3 = ReadFileCalls p2 @ [githubTokenFile f]"
    by (simp add: main_clients_reads)
  with p' have 1: "ReadFileCalls p' = ReadFileCalls p2 @ [githubTokenFile f]" by simp
  from m r3 have 2: "authConfig (jc c) = ac"
    by (auto simp: main_clients_def ReadFile_def Let_def split: sum.splits option.splits)
  from a r1 t r2 1 2 that show thesis by blast
qed

subsection \<open>A process that has exited, or not started\<close>

lemma dead_step: "Exit p \<noteq> None \<Longrightarrow> step ev p = None"
  by (cases ev) (simp_all add: step_def alive_def)

lemma dead_run: "Exit p \<noteq> None \<Longrightarrow> run evs p = Some p' \<Longrightarrow> evs = [] \<and> p' = p"
  by (cases evs) (simp_all add: dead_step)

subsection \<open>Start-up\<close>

text \<open>
  C5. With neither \<open>--jenkins-token-file\<close> nor \<open>--jenkins-bearer-token-file\<close>, \<open>main\<close>
  ends the process with \<open>Fatal\<close> (exit status 1) before any \<open>go\<close> statement and
  before its loop: no goroutine has been started (so nothing serves HTTP), neither loop
  has been entered, and nothing can happen to the process afterwards. When the three
  calls before line 81 succeed, the only line written is the one of line 100, and no
  file has been read.
\<close>

theorem no_token_file_aborts_before_any_loop:
  assumes "jenkinsTokenFile f = []" and "jenkinsBearerTokenFile f = []"
  shows "\<exists>p. main env f initial = (None, p) \<and> Exit p = Some 1 \<and> Started p = [] \<and>
           mainPC p = NotStarted \<and> gatherPC p = NotStarted \<and> \<not> serving p \<and>
           (\<forall>ev. step ev p = None) \<and>
           (\<forall>evs p'. run evs p = Some p' \<longrightarrow> p' = p) \<and>
           (labels_Parse env (selector f) = None \<and> agent_Start env (configPath f) = None \<and>
            NewClientInCluster env (ProwJobNamespace (agent_Config env 0)) = None \<longrightarrow>
              ReadFileCalls p = [] \<and>
              Output p = [\<lparr>Data = logger, Level = FatalLevel, Message =
                ''An auth token for basic or bearer token auth must be supplied.''\<rparr>])"
proof -
  have a: "fst (main_auth env f initial) = None"
    using assms by (simp add: main_auth_def)
  have "fst (main env f initial) = None"
  proof (cases "main_auth env f initial")
    case (Pair r p1)
    with a show ?thesis by (simp add: main_def split: option.splits)
  qed
  then obtain p where p: "main env f initial = (None, p)"
    by (cases "main env f initial") simp
  from main_None [OF p] have q: "Exit p = Some 1" "Started p = []" "mainPC p = NotStarted"
    "gatherPC p = NotStarted"
    by (simp_all add: initial_def)
  from q(1) have "\<forall>ev. step ev p = None" by (simp add: dead_step)
  moreover from q(1) have "\<forall>evs p'. run evs p = Some p' \<longrightarrow> p' = p"
    using dead_run [of p] by auto
  moreover from q(1) have "\<not> serving p" by (simp add: serving_def)
  moreover have "labels_Parse env (selector f) = None \<and> agent_Start env (configPath f) = None \<and>
      NewClientInCluster env (ProwJobNamespace (agent_Config env 0)) = None \<longrightarrow>
      ReadFileCalls p = [] \<and>
      Output p = [\<lparr>Data = logger, Level = FatalLevel, Message =
        ''An auth token for basic or bearer token auth must be supplied.''\<rparr>]"
    using p assms by (auto simp: main_def main_auth_def initial_def)
  ultimately show ?thesis using p q by blast
qed

theorem no_token_file_aborts_witness:
  "jenkinsTokenFile defaults = [] \<and> jenkinsBearerTokenFile defaults = [] \<and>
   fst (main cluster defaults initial) = None \<and>
   Exit (snd (main cluster defaults initial)) = Some 1 \<and>
   Started (snd (main cluster defaults initial)) = [] \<and>
   step (ListenAndServeReturns ''bind: address already in use'')
     (snd (main cluster defaults initial)) = None \<and>
   step MainTicker (snd (main cluster defaults initial)) = None"
  using no_token_file_aborts_before_any_loop [of defaults cluster]
  by (auto simp: defaults_def)

subsection \<open>The deployment, evaluated\<close>

lemma TrimSpace_examples:
  "TrimSpace ('' abc'' @ [CHR 0x0A]) = ''abc''"
  "TrimSpace (''xyz'' @ [CHR 0x0A]) = ''xyz''"
  "TrimSpace (''oauth'' @ [CHR 0x0A]) = ''oauth''"
  by code_simp+

lemma main_auth_cluster_both:
  "main_auth cluster both initial =
     (Some \<lparr>Basic = Some \<lparr>User = ''jenkins-trigger'', Token = ''abc''\<rparr>, BearerToken = None\<rparr>,
      initial\<lparr>ReadFileCalls := [''/etc/jenkins/token'']\<rparr>)"
  by code_simp

lemma main_tls_cluster_both:
  "fst (main_tls cluster both (initial\<lparr>ReadFileCalls := [jenkinsTokenFile both]\<rparr>)) = Some None"
  by code_simp

lemma main_tls_examples:
  "main_tls cluster (basic\<lparr>certFile := ''cert.pem''\<rparr>) initial = (Some None, initial)"
  "main_tls cluster (basic\<lparr>certFile := ''cert.pem'', keyFile := ''key.pem''\<rparr>) initial =
     (Some (Some \<lparr>Certificates = [''cert.pem+key.pem''], RootCAs = None,
                   NameToCertificate = []\<rparr>), initial)"
  by code_simp+

lemma main_cluster_basic:
  "main cluster basic initial =
    (Some \<lparr>kc = ''default'',
       jc = \<lparr>baseURL = ''http://jenkins-proxy'', tlsConfig = None,
              authConfig = \<lparr>Basic = Some \<lparr>User = ''jenkins-trigger'', Token = ''abc''\<rparr>,
                   BearerToken = None\<rparr>\<rparr>,
       ghc = \<lparr>dry = True, token = ''oauth'', base = ''https://api.github.com''\<rparr>,
       labelSelector = []\<rparr>,
     initial\<lparr>ReadFileCalls := [''/etc/jenkins/token'', ''/etc/github/oauth''],
       Started := [PushMetrics ''jenkins-operator'' ''http://pushgateway'' 60000000000,
        Serve, Gather], mainPC := AtSelect, mainPeriod := 30000000000\<rparr>)"
  by code_simp

lemma main_quiet_basic:
  "snd (main quiet basic initial) =
     initial\<lparr>ReadFileCalls := [''/etc/jenkins/token'', ''/etc/github/oauth''],
       Started := [Serve, Gather], mainPC := AtSelect, mainPeriod := 30000000000\<rparr>"
  by code_simp

lemma operator_eq:
  "operator = initial\<lparr>ReadFileCalls := [''/etc/jenkins/token'', ''/etc/github/oauth''],
       Started := [PushMetrics ''jenkins-operator'' ''http://pushgateway'' 60000000000,
        Serve, Gather], mainPC := AtSelect, mainPeriod := 30000000000\<rparr>"
  by (simp add: operator_def main_cluster_basic)

subsection \<open>No event starts a goroutine\<close>

lemma step_Started: "step ev p = Some p' \<Longrightarrow> Started p' = Started p"
  by (cases ev)
    (auto simp: step_def main_tick_begin_def main_tick_end_def main_sig_def main_return_def
      log_def Let_def
      gather_enter_def gather_tick_begin_def gather_tick_end_def gather_sig_def serve_def
      Fatal_def split: if_splits option.splits)

lemma run_Started: "run evs p = Some p' \<Longrightarrow> Started p' = Started p"
proof (induction evs arbitrary: p)
  case Nil
  then show ?case by simp
next
  case (Cons ev evs)
  then show ?case
    by (cases "step ev p") (auto dest: step_Started)
qed

subsection \<open>Start-up, continued\<close>

text \<open>
  C7. In every state the process reaches, from any start-up and through any events, a
  goroutine of \<open>m.PushMetrics\<close> exists only if the configured endpoint is not empty;
  when \<open>main\<close> has not ended with \<open>Fatal\<close> before line 134, it exists if and only if
  the endpoint is not empty, and it is given that endpoint and the configured interval.
  No event starts one later.
\<close>

theorem push_started_iff_endpoint:
  assumes "main env f initial = (r, p)" and "run evs p = Some p'"
  shows "(pushing p' \<longrightarrow> Endpoint (PushGateway (agent_Config env 1)) \<noteq> []) \<and>
         (r \<noteq> None \<longrightarrow>
            (pushing p' \<longleftrightarrow> Endpoint (PushGateway (agent_Config env 1)) \<noteq> []) \<and>
            Started p' = pushes env @ [Serve, Gather]) \<and>
         (Endpoint (PushGateway (agent_Config env 1)) = [] \<longrightarrow>
            \<not> pushing p' \<and> (r \<noteq> None \<longrightarrow> Started p' = [Serve, Gather])) \<and>
         (Endpoint (PushGateway (agent_Config env 1)) \<noteq> [] \<and> r \<noteq> None \<longrightarrow>
            Started p' = [PushMetrics ''jenkins-operator''
                            (Endpoint (PushGateway (agent_Config env 1)))
                            (Interval (PushGateway (agent_Config env 1))), Serve, Gather])"
proof (cases r)
  case None
  with assms(1) have "Started p = []"
    using main_None [of env f initial p] by (simp add: initial_def)
  with assms(2) have "Started p' = []" by (simp add: run_Started)
  with None show ?thesis by (simp add: pushing_def)
next
  case (Some c)
  with assms(1) have "Started p = pushes env @ [Serve, Gather]"
    using main_Some [of env f initial c p] by (simp add: initial_def)
  with assms(2) have s: "Started p' = pushes env @ [Serve, Gather]"
    by (simp add: run_Started)
  then have "pushing p' = (Endpoint (PushGateway (agent_Config env 1)) \<noteq> [])"
    by (simp add: pushing_def pushes_def Let_def)
  with s Some show ?thesis by (simp add: pushes_def Let_def)
qed

theorem push_started_iff_endpoint_witness:
  "run [MainTicker] operator \<noteq> None \<and>
   pushing (the (run [MainTicker] operator)) \<and>
   Endpoint (PushGateway (agent_Config cluster 1)) = ''http://pushgateway'' \<and>
   Started (the (run [MainTicker] operator)) =
     [PushMetrics ''jenkins-operator'' ''http://pushgateway'' (60 * Second), Serve, Gather] \<and>
   Endpoint (PushGateway (agent_Config quiet 1)) = [] \<and>
   \<not> pushing (snd (main quiet basic initial)) \<and>
   Started (snd (main quiet basic initial)) = [Serve, Gather]"
proof -
  have r: "run [MainTicker] operator = Some (operator\<lparr>mainTick := True\<rparr>)"
    by (simp add: step_def alive_def operator_eq initial_def)
  have m: "main cluster basic initial = (fst (main cluster basic initial), operator)"
    by (simp add: operator_def)
  have q: "main quiet basic initial =
      (fst (main quiet basic initial), snd (main quiet basic initial))"
    by simp
  have n: "fst (main cluster basic initial) \<noteq> None" "fst (main quiet basic initial) \<noteq> None"
    by code_simp+
  have e: "Endpoint (PushGateway (agent_Config cluster 1)) = ''http://pushgateway''"
    "Interval (PushGateway (agent_Config cluster 1)) = 60 * Second"
    "Endpoint (PushGateway (agent_Config quiet 1)) = []"
    by (simp_all add: cluster_def quiet_def)
  from push_started_iff_endpoint [OF m r] n(1) e(1,2)
  have "pushing (operator\<lparr>mainTick := True\<rparr>) \<and> Started (operator\<lparr>mainTick := True\<rparr>) =
     [PushMetrics ''jenkins-operator'' ''http://pushgateway'' (60 * Second), Serve, Gather]"
    by (simp add: pushes_def)
  moreover from push_started_iff_endpoint [OF q, of "[]"] n(2) e(3)
  have "\<not> pushing (snd (main quiet basic initial)) \<and>
    Started (snd (main quiet basic initial)) = [Serve, Gather]"
    by (simp add: pushes_def)
  ultimately show ?thesis using r e by simp
qed

text \<open>
  C9. With both token-file flags set, \<open>main\<close> is exactly what it is with the bearer
  flag empty: the two flags are not rejected together, the bearer flag is never looked
  at. Lines 81-101 make one call of \<open>ioutil.ReadFile\<close>, on the basic token file, and
  end in \<open>Fatal\<close> only if that file cannot be read; otherwise basic authentication is
  configured, with the user name and the trimmed token, and no bearer token.
  Whenever \<open>main\<close> reaches its loop, the Jenkins client it has built carries that
  basic configuration and no bearer token, and the files read are the basic token
  file, the CA file if TLS is built with one, and the GitHub token file: never a file
  for the bearer flag. And \<open>main\<close> does reach its loop, with that client, when the
  basic token file can be read and every other step of the start-up succeeds.
\<close>

theorem basic_token_file_takes_precedence:
  assumes "jenkinsTokenFile f \<noteq> []" and "jenkinsBearerTokenFile f \<noteq> []"
  shows "main env f initial = main env (f\<lparr>jenkinsBearerTokenFile := []\<rparr>) initial \<and>
         main_auth env f p =
           (case files env (jenkinsTokenFile f) of
              Inl e \<Rightarrow>
                (None, Fatal (WithError e logger) ''Could not read token file.''
                         (p\<lparr>ReadFileCalls := ReadFileCalls p @ [jenkinsTokenFile f]\<rparr>))
            | Inr raw \<Rightarrow>
                (Some \<lparr>Basic = Some \<lparr>User = jenkinsUserName f, Token = TrimSpace raw\<rparr>,
                       BearerToken = None\<rparr>,
                 p\<lparr>ReadFileCalls := ReadFileCalls p @ [jenkinsTokenFile f]\<rparr>)) \<and>
         (\<forall>c p'. main env f initial = (Some c, p') \<longrightarrow>
            (\<exists>raw. files env (jenkinsTokenFile f) = Inr raw \<and>
               authConfig (jc c) =
                 \<lparr>Basic = Some \<lparr>User = jenkinsUserName f, Token = TrimSpace raw\<rparr>,
                   BearerToken = None\<rparr>) \<and>
            ReadFileCalls p' =
              jenkinsTokenFile f #
              (if certFile f \<noteq> [] \<and> keyFile f \<noteq> [] \<and> caCertFile f \<noteq> []
               then [caCertFile f] else []) @ [githubTokenFile f]) \<and>
         (\<forall>raw tc raw'.
            labels_Parse env (selector f) = None \<and>
            agent_Start env (configPath f) = None \<and>
            NewClientInCluster env (ProwJobNamespace (agent_Config env 0)) = None \<and>
            files env (jenkinsTokenFile f) = Inr raw \<and>
            fst (main_tls env f (initial\<lparr>ReadFileCalls := [jenkinsTokenFile f]\<rparr>)) = Some tc \<and>
            files env (githubTokenFile f) = Inr raw' \<and>
            url_Parse env (githubEndpoint f) = None \<longrightarrow>
            fst (main env f initial) =
              Some \<lparr>kc = ProwJobNamespace (agent_Config env 0),
                     jc = \<lparr>baseURL = jenkinsURL f, tlsConfig = tc,
                            authConfig =
                              \<lparr>Basic = Some \<lparr>User = jenkinsUserName f, Token = TrimSpace raw\<rparr>,
                                BearerToken = None\<rparr>\<rparr>,
                     ghc = \<lparr>dry = dryRun f, token = TrimSpace raw', base = githubEndpoint f\<rparr>,
                     labelSelector = selector f\<rparr>)"
proof -
  have "main_auth env (f\<lparr>jenkinsBearerTokenFile := []\<rparr>) q = main_auth env f q" for q
    using assms(1) by (simp add: main_auth_def loadToken_eq split: sum.splits)
  moreover have "main_tls env (f\<lparr>jenkinsBearerTokenFile := []\<rparr>) q = main_tls env f q" for q
    by (simp add: main_tls_def)
  moreover have "main_clients env (f\<lparr>jenkinsBearerTokenFile := []\<rparr>) k j q =
      main_clients env f k j q" for k j q
    by (simp add: main_clients_def ReadFile_def split: sum.splits option.splits)
  ultimately have 1:
    "main env f initial = main env (f\<lparr>jenkinsBearerTokenFile := []\<rparr>) initial"
    by (simp add: main_def cong: option.case_cong prod.case_cong)
  have 2: "main_auth env f q =
           (case files env (jenkinsTokenFile f) of
              Inl e \<Rightarrow>
                (None, Fatal (WithError e logger) ''Could not read token file.''
                         (q\<lparr>ReadFileCalls := ReadFileCalls q @ [jenkinsTokenFile f]\<rparr>))
            | Inr raw \<Rightarrow>
                (Some \<lparr>Basic = Some \<lparr>User = jenkinsUserName f, Token = TrimSpace raw\<rparr>,
                       BearerToken = None\<rparr>,
                 q\<lparr>ReadFileCalls := ReadFileCalls q @ [jenkinsTokenFile f]\<rparr>))" for q
    using assms(1) by (simp add: main_auth_def loadToken_eq split: sum.splits)
  have i: "ReadFileCalls initial = []" by (simp add: initial_def)
  have 3: "(\<exists>raw. files env (jenkinsTokenFile f) = Inr raw \<and>
               authConfig (jc c) =
                 \<lparr>Basic = Some \<lparr>User = jenkinsUserName f, Token = TrimSpace raw\<rparr>,
                   BearerToken = None\<rparr>) \<and>
            ReadFileCalls p' =
              jenkinsTokenFile f #
              (if certFile f \<noteq> [] \<and> keyFile f \<noteq> [] \<and> caCertFile f \<noteq> []
               then [caCertFile f] else []) @ [githubTokenFile f]"
    if m: "main env f initial = (Some c, p')" for c p'
  proof -
    from m obtain ac p1 tc p2 where a: "main_auth env f initial = (Some ac, p1)"
      and t: "main_tls env f p1 = (Some tc, p2)"
      and r: "ReadFileCalls p' = ReadFileCalls p2 @ [githubTokenFile f]"
      and c: "authConfig (jc c) = ac"
      by (rule main_Some_reads)
    from a 2 [of initial] obtain raw where raw: "files env (jenkinsTokenFile f) = Inr raw"
      and ac: "ac = \<lparr>Basic = Some \<lparr>User = jenkinsUserName f, Token = TrimSpace raw\<rparr>,
                       BearerToken = None\<rparr>"
      and p1: "p1 = initial\<lparr>ReadFileCalls := ReadFileCalls initial @ [jenkinsTokenFile f]\<rparr>"
      by (cases "files env (jenkinsTokenFile f)") auto
    from p1 i have "ReadFileCalls p1 = [jenkinsTokenFile f]" by simp
    with main_tls_reads [OF t] r have "ReadFileCalls p' =
              jenkinsTokenFile f #
              (if certFile f \<noteq> [] \<and> keyFile f \<noteq> [] \<and> caCertFile f \<noteq> []
               then [caCertFile f] else []) @ [githubTokenFile f]"
      by simp
    with raw ac c show ?thesis by blast
  qed
  have 4: "fst (main env f initial) =
              Some \<lparr>kc = ProwJobNamespace (agent_Config env 0),
                     jc = \<lparr>baseURL = jenkinsURL f, tlsConfig = tc,
                            authConfig =
                              \<lparr>Basic = Some \<lparr>User = jenkinsUserName f, Token = TrimSpace raw\<rparr>,
                                BearerToken = None\<rparr>\<rparr>,
                     ghc = \<lparr>dry = dryRun f, token = TrimSpace raw', base = githubEndpoint f\<rparr>,
                     labelSelector = selector f\<rparr>"
    if h: "labels_Parse env (selector f) = None \<and>
            agent_Start env (configPath f) = None \<and>
            NewClientInCluster env (ProwJobNamespace (agent_Config env 0)) = None \<and>
            files env (jenkinsTokenFile f) = Inr raw \<and>
            fst (main_tls env f (initial\<lparr>ReadFileCalls := [jenkinsTokenFile f]\<rparr>)) = Some tc \<and>
            files env (githubTokenFile f) = Inr raw' \<and>
            url_Parse env (githubEndpoint f) = None" for raw tc raw'
  proof -
    let ?p1 = "initial\<lparr>ReadFileCalls := [jenkinsTokenFile f]\<rparr>"
    let ?ac = "\<lparr>Basic = Some \<lparr>User = jenkinsUserName f, Token = TrimSpace raw\<rparr>,
                BearerToken = None\<rparr>"
    from h 2 [of initial] i have a: "main_auth env f initial = (Some ?ac, ?p1)"
      by simp
    from h obtain p2 where t: "main_tls env f ?p1 = (Some tc, p2)"
      by (cases "main_tls env f ?p1") auto
    let ?c = "\<lparr>kc = ProwJobNamespace (agent_Config env 0),
                jc = \<lparr>baseURL = jenkinsURL f, tlsConfig = tc, authConfig = ?ac\<rparr>,
                ghc = \<lparr>dry = dryRun f, token = TrimSpace raw', base = githubEndpoint f\<rparr>,
                labelSelector = selector f\<rparr>"
    from h have "fst (main_clients env f (ProwJobNamespace (agent_Config env 0))
        \<lparr>baseURL = jenkinsURL f, tlsConfig = tc, authConfig = ?ac\<rparr> p2) = Some ?c"
      by (simp add: main_clients_def ReadFile_def Let_def)
    then obtain p3 where m: "main_clients env f (ProwJobNamespace (agent_Config env 0))
        \<lparr>baseURL = jenkinsURL f, tlsConfig = tc, authConfig = ?ac\<rparr> p2 = (Some ?c, p3)"
      by (cases "main_clients env f (ProwJobNamespace (agent_Config env 0))
        \<lparr>baseURL = jenkinsURL f, tlsConfig = tc, authConfig = ?ac\<rparr> p2") auto
    from h a t m show ?thesis
      by (simp add: main_def)
  qed
  from 1 2 [of p] 3 4 show ?thesis by blast
qed

theorem basic_token_file_takes_precedence_witness:
  "jenkinsTokenFile both = ''/etc/jenkins/token'' \<and>
   jenkinsBearerTokenFile both = ''/etc/jenkins/bearer'' \<and>
   main cluster both initial = main cluster basic initial \<and>
   main_auth cluster both initial =
     (Some \<lparr>Basic = Some \<lparr>User = ''jenkins-trigger'', Token = ''abc''\<rparr>, BearerToken = None\<rparr>,
      initial\<lparr>ReadFileCalls := [''/etc/jenkins/token'']\<rparr>) \<and>
   fst (main cluster both initial) =
     Some \<lparr>kc = ''default'',
            jc = \<lparr>baseURL = ''http://jenkins-proxy'', tlsConfig = None,
                   authConfig = \<lparr>Basic = Some \<lparr>User = ''jenkins-trigger'', Token = ''abc''\<rparr>,
                                  BearerToken = None\<rparr>\<rparr>,
            ghc = \<lparr>dry = True, token = ''oauth'', base = ''https://api.github.com''\<rparr>,
            labelSelector = []\<rparr> \<and>
   ReadFileCalls (snd (main cluster both initial)) =
     [''/etc/jenkins/token'', ''/etc/github/oauth'']"
proof -
  have f: "jenkinsTokenFile both = ''/etc/jenkins/token''"
    "jenkinsBearerTokenFile both = ''/etc/jenkins/bearer''"
    by (simp_all add: both_def basic_def defaults_def)
  have b: "both\<lparr>jenkinsBearerTokenFile := []\<rparr> = basic"
    by (simp add: both_def basic_def defaults_def)
  have n: "jenkinsTokenFile both \<noteq> []" "jenkinsBearerTokenFile both \<noteq> []"
    by (simp_all add: f)
  note t = basic_token_file_takes_precedence [OF n, of cluster initial]
  from t have "main cluster both initial = main cluster (both\<lparr>jenkinsBearerTokenFile := []\<rparr>) initial"
    by (rule conjunct1)
  then have 1: "main cluster both initial = main cluster basic initial"
    by (simp only: b)
  have h: "labels_Parse cluster (selector both) = None \<and>
      agent_Start cluster (configPath both) = None \<and>
      NewClientInCluster cluster (ProwJobNamespace (agent_Config cluster 0)) = None \<and>
      files cluster (jenkinsTokenFile both) = Inr ('' abc'' @ [CHR 0x0A]) \<and>
      fst (main_tls cluster both (initial\<lparr>ReadFileCalls := [jenkinsTokenFile both]\<rparr>)) =
        Some None \<and>
      files cluster (githubTokenFile both) = Inr (''oauth'' @ [CHR 0x0A]) \<and>
      url_Parse cluster (githubEndpoint both) = None"
    using main_tls_cluster_both
    by (simp add: cluster_def both_def basic_def defaults_def)
  from t have "\<forall>raw tc raw'.
            labels_Parse cluster (selector both) = None \<and>
            agent_Start cluster (configPath both) = None \<and>
            NewClientInCluster cluster (ProwJobNamespace (agent_Config cluster 0)) = None \<and>
            files cluster (jenkinsTokenFile both) = Inr raw \<and>
            fst (main_tls cluster both (initial\<lparr>ReadFileCalls := [jenkinsTokenFile both]\<rparr>)) =
              Some tc \<and>
            files cluster (githubTokenFile both) = Inr raw' \<and>
            url_Parse cluster (githubEndpoint both) = None \<longrightarrow>
            fst (main cluster both initial) =
              Some \<lparr>kc = ProwJobNamespace (agent_Config cluster 0),
                     jc = \<lparr>baseURL = jenkinsURL both, tlsConfig = tc,
                            authConfig =
                              \<lparr>Basic = Some \<lparr>User = jenkinsUserName both, Token = TrimSpace raw\<rparr>,
                                BearerToken = None\<rparr>\<rparr>,
                     ghc = \<lparr>dry = dryRun both, token = TrimSpace raw',
                            base = githubEndpoint both\<rparr>,
                     labelSelector = selector both\<rparr>"
    by (rule conjunct2 [OF conjunct2 [OF conjunct2]])
  note r = this [rule_format, OF h]
  have g: "ProwJobNamespace (agent_Config cluster 0) = ''default''"
    "jenkinsURL both = ''http://jenkins-proxy''" "jenkinsUserName both = ''jenkins-trigger''"
    "dryRun both = True" "githubEndpoint both = ''https://api.github.com''"
    "selector both = []"
    by (simp_all add: cluster_def both_def basic_def defaults_def)
  from r
  have 2: "fst (main cluster both initial) =
     Some \<lparr>kc = ''default'',
            jc = \<lparr>baseURL = ''http://jenkins-proxy'', tlsConfig = None,
                   authConfig = \<lparr>Basic = Some \<lparr>User = ''jenkins-trigger'', Token = ''abc''\<rparr>,
                                  BearerToken = None\<rparr>\<rparr>,
            ghc = \<lparr>dry = True, token = ''oauth'', base = ''https://api.github.com''\<rparr>,
            labelSelector = []\<rparr>"
    by (simp only: TrimSpace_examples g)
  have 3: "ReadFileCalls (snd (main cluster both initial)) =
     [''/etc/jenkins/token'', ''/etc/github/oauth'']"
    unfolding 1 by (simp add: main_cluster_basic)
  from f 1 main_auth_cluster_both 2 3 show ?thesis by (simp only: simp_thms)
qed

text \<open>
  C10. When the certificate flag or the key flag is empty, lines 102-109 leave
  \<open>tlsConfig\<close> \<open>nil\<close> and change nothing (no log line, no exit, no file read), and
  \<open>main\<close> is what it is with the three TLS flags empty. When \<open>main\<close> reaches its loop,
  the Jenkins client has a TLS configuration if and only if both flags are set. With
  both set, no CA file named and a key pair that loads, the configuration is built,
  without root CAs.
\<close>

theorem tls_config_needs_cert_and_key:
  shows "(certFile f = [] \<or> keyFile f = [] \<longrightarrow>
            main_tls env f p = (Some None, p) \<and>
            main env f initial =
              main env (f\<lparr>certFile := [], keyFile := [], caCertFile := []\<rparr>) initial) \<and>
         (\<forall>c p'. main env f initial = (Some c, p') \<longrightarrow>
            (tlsConfig (jc c) \<noteq> None \<longleftrightarrow> certFile f \<noteq> [] \<and> keyFile f \<noteq> [])) \<and>
         (\<forall>cert. certFile f \<noteq> [] \<and> keyFile f \<noteq> [] \<and> caCertFile f = [] \<and>
            LoadX509KeyPair env (certFile f) (keyFile f) = Inr cert \<longrightarrow>
            main_tls env f p =
              (Some (Some (BuildNameToCertificate env
                 \<lparr>Certificates = [cert], RootCAs = None, NameToCertificate = []\<rparr>)), p))"
proof -
  have one: "main_tls env f q = (Some None, q)" if "certFile f = [] \<or> keyFile f = []" for q
    using that by (auto simp: main_tls_def)
  have "main env f initial =
      main env (f\<lparr>certFile := [], keyFile := [], caCertFile := []\<rparr>) initial"
    if h: "certFile f = [] \<or> keyFile f = []"
  proof -
    let ?g = "f\<lparr>certFile := [], keyFile := [], caCertFile := []\<rparr>"
    have "main_auth env ?g q = main_auth env f q" for q
      by (simp add: main_auth_def loadToken_eq split: sum.splits)
    moreover have "main_tls env ?g q = main_tls env f q" for q
      using one [OF h] by (simp add: main_tls_def)
    moreover have "main_clients env ?g k j q = main_clients env f k j q" for k j q
      by (simp add: main_clients_def ReadFile_def split: sum.splits option.splits)
    ultimately show ?thesis by (simp add: main_def cong: option.case_cong prod.case_cong)
  qed
  moreover have "tlsConfig (jc c) \<noteq> None \<longleftrightarrow> certFile f \<noteq> [] \<and> keyFile f \<noteq> []"
    if m: "main env f initial = (Some c, p')" for c p'
  proof -
    from m obtain ac p1 tc p2 raw where t: "main_tls env f p1 = (Some tc, p2)"
      and c: "c = \<lparr>kc = ProwJobNamespace (agent_Config env 0),
          jc = \<lparr>baseURL = jenkinsURL f, tlsConfig = tc, authConfig = ac\<rparr>,
          ghc = \<lparr>dry = dryRun f, token = TrimSpace raw, base = githubEndpoint f\<rparr>,
          labelSelector = selector f\<rparr>"
      by (rule main_SomeD)
    from t have "tc \<noteq> None \<longleftrightarrow> certFile f \<noteq> [] \<and> keyFile f \<noteq> []"
      by (auto simp: main_tls_def split: if_splits prod.splits sum.splits)
    with c show ?thesis by simp
  qed
  moreover have "main_tls env f p =
              (Some (Some (BuildNameToCertificate env
                 \<lparr>Certificates = [cert], RootCAs = None, NameToCertificate = []\<rparr>)), p)"
    if "certFile f \<noteq> [] \<and> keyFile f \<noteq> [] \<and> caCertFile f = [] \<and>
            LoadX509KeyPair env (certFile f) (keyFile f) = Inr cert" for cert
    using that by (simp add: main_tls_def loadCerts_def)
  ultimately show ?thesis using one by blast
qed

theorem tls_config_needs_cert_and_key_witness:
  "main_tls cluster (basic\<lparr>certFile := ''cert.pem''\<rparr>) initial = (Some None, initial) \<and>
   main cluster (basic\<lparr>certFile := ''cert.pem''\<rparr>) initial = main cluster basic initial \<and>
   tlsConfig (jc (the (fst (main cluster basic initial)))) = None \<and>
   main_tls cluster (basic\<lparr>certFile := ''cert.pem'', keyFile := ''key.pem''\<rparr>) initial =
     (Some (Some \<lparr>Certificates = [''cert.pem+key.pem''], RootCAs = None,
                   NameToCertificate = []\<rparr>), initial)"
proof -
  let ?one = "basic\<lparr>certFile := ''cert.pem''\<rparr>"
  have k: "certFile ?one = [] \<or> keyFile ?one = []"
    by (simp add: basic_def defaults_def)
  have b: "?one\<lparr>certFile := [], keyFile := [], caCertFile := []\<rparr> = basic"
    by (simp add: basic_def defaults_def)
  have c: "certFile basic = []"
    by (simp add: basic_def defaults_def)
  note t = tls_config_needs_cert_and_key [of ?one cluster initial]
  from t have "certFile ?one = [] \<or> keyFile ?one = [] \<longrightarrow>
      main_tls cluster ?one initial = (Some None, initial) \<and>
      main cluster ?one initial =
        main cluster (?one\<lparr>certFile := [], keyFile := [], caCertFile := []\<rparr>) initial"
    by (rule conjunct1)
  from mp [OF this k] have 1: "main cluster ?one initial = main cluster basic initial"
    by (simp only: b)
  note u = tls_config_needs_cert_and_key [of basic cluster initial]
  from u have "\<forall>c p'. main cluster basic initial = (Some c, p') \<longrightarrow>
      (tlsConfig (jc c) \<noteq> None \<longleftrightarrow> certFile basic \<noteq> [] \<and> keyFile basic \<noteq> [])"
    by (rule conjunct1 [OF conjunct2])
  with main_cluster_basic c have 2: "tlsConfig (jc (the (fst (main cluster basic initial)))) = None"
    by (simp only: fst_conv option.sel simp_thms not_not)
  from 1 2 main_tls_examples show ?thesis by (simp only: simp_thms)
qed

text \<open>
  C8. A token that \<open>loadToken\<close> returns is \<open>bytes.TrimSpace\<close> of the content of its
  file. When \<open>main\<close> reaches its loop, the token of the Jenkins client (basic or bearer,
  one of the two) and the OAuth token of the GitHub client are each \<open>bytes.TrimSpace\<close>
  of the content of their file, which is that content without its leading and
  trailing white space.
\<close>

theorem credentials_are_trimmed:
  assumes "main env f initial = (Some c, p)"
  shows "(\<forall>file q tok q'. loadToken env file q = (Inr tok, q') \<longrightarrow>
            (\<exists>raw. files env file = Inr raw \<and> tok = TrimSpace raw \<and> stripped raw tok)) \<and>
         (\<forall>b. Basic (authConfig (jc c)) = Some b \<longrightarrow>
            (\<exists>raw. files env (jenkinsTokenFile f) = Inr raw \<and>
               BasicAuthConfig.Token b = TrimSpace raw \<and>
               stripped raw (BasicAuthConfig.Token b))) \<and>
         (\<forall>b. BearerToken (authConfig (jc c)) = Some b \<longrightarrow>
            (\<exists>raw. files env (jenkinsBearerTokenFile f) = Inr raw \<and>
               BearerTokenAuthConfig.Token b = TrimSpace raw \<and>
               stripped raw (BearerTokenAuthConfig.Token b))) \<and>
         (Basic (authConfig (jc c)) = None \<longleftrightarrow> BearerToken (authConfig (jc c)) \<noteq> None) \<and>
         (\<exists>raw. files env (githubTokenFile f) = Inr raw \<and>
            token (ghc c) = TrimSpace raw \<and> stripped raw (token (ghc c)))"
proof -
  from assms obtain ac p1 tc p2 raw where a: "main_auth env f initial = (Some ac, p1)"
    and g: "files env (githubTokenFile f) = Inr raw"
    and c: "c = \<lparr>kc = ProwJobNamespace (agent_Config env 0),
          jc = \<lparr>baseURL = jenkinsURL f, tlsConfig = tc, authConfig = ac\<rparr>,
          ghc = \<lparr>dry = dryRun f, token = TrimSpace raw, base = githubEndpoint f\<rparr>,
          labelSelector = selector f\<rparr>"
    by (rule main_SomeD)
  from a have "\<forall>b. Basic ac = Some b \<longrightarrow>
            (\<exists>raw. files env (jenkinsTokenFile f) = Inr raw \<and>
               BasicAuthConfig.Token b = TrimSpace raw \<and>
               stripped raw (BasicAuthConfig.Token b))"
    by (auto simp: main_auth_def loadToken_eq TrimSpace_stripped
        split: if_splits sum.splits)
  moreover from a have "\<forall>b. BearerToken ac = Some b \<longrightarrow>
            (\<exists>raw. files env (jenkinsBearerTokenFile f) = Inr raw \<and>
               BearerTokenAuthConfig.Token b = TrimSpace raw \<and>
               stripped raw (BearerTokenAuthConfig.Token b))"
    by (auto simp: main_auth_def loadToken_eq TrimSpace_stripped
        split: if_splits sum.splits)
  moreover from a have "Basic ac = None \<longleftrightarrow> BearerToken ac \<noteq> None"
    by (auto simp: main_auth_def loadToken_eq split: if_splits sum.splits)
  moreover from g c have "\<exists>raw. files env (githubTokenFile f) = Inr raw \<and>
            token (ghc c) = TrimSpace raw \<and> stripped raw (token (ghc c))"
    by (simp add: TrimSpace_stripped)
  moreover have "\<forall>file q tok q'. loadToken env file q = (Inr tok, q') \<longrightarrow>
      (\<exists>raw. files env file = Inr raw \<and> tok = TrimSpace raw \<and> stripped raw tok)"
    by (auto simp: loadToken_eq TrimSpace_stripped split: sum.splits)
  ultimately show ?thesis using c by simp
qed

theorem credentials_are_trimmed_witness:
  "files cluster (jenkinsTokenFile basic) = Inr ('' abc'' @ [CHR 0x0A]) \<and>
   map_option BasicAuthConfig.Token
     (Basic (authConfig (jc (the (fst (main cluster basic initial)))))) = Some ''abc'' \<and>
   stripped ('' abc'' @ [CHR 0x0A]) ''abc'' \<and>
   files cluster (githubTokenFile basic) = Inr (''oauth'' @ [CHR 0x0A]) \<and>
   token (ghc (the (fst (main cluster basic initial)))) = ''oauth'' \<and>
   stripped (''oauth'' @ [CHR 0x0A]) ''oauth''"
proof -
  let ?c = "the (fst (main cluster basic initial))"
  have f: "files cluster (jenkinsTokenFile basic) = Inr ('' abc'' @ [CHR 0x0A])"
    "files cluster (githubTokenFile basic) = Inr (''oauth'' @ [CHR 0x0A])"
    by (simp_all add: cluster_def basic_def defaults_def)
  have b: "Basic (authConfig (jc ?c)) = Some \<lparr>User = ''jenkins-trigger'', Token = ''abc''\<rparr>"
    and g: "token (ghc ?c) = ''oauth''"
    by (simp_all add: main_cluster_basic)
  note t = credentials_are_trimmed [OF main_cluster_basic]
  from t b have "\<exists>raw. files cluster (jenkinsTokenFile basic) = Inr raw \<and>
      stripped raw ''abc''"
    by auto
  with f(1) have 1: "stripped ('' abc'' @ [CHR 0x0A]) ''abc''" by auto
  from t g have "\<exists>raw. files cluster (githubTokenFile basic) = Inr raw \<and>
      stripped raw ''oauth''"
    by auto
  with f(2) have 2: "stripped (''oauth'' @ [CHR 0x0A]) ''oauth''" by auto
  from f b g 1 2 show ?thesis by simp
qed

section \<open>Properties of the running process\<close>

subsection \<open>What the events keep\<close>

lemmas effect_defs = main_tick_begin_def main_tick_end_def main_sig_def main_return_def
  log_def Let_def
  gather_enter_def gather_tick_begin_def gather_tick_end_def gather_sig_def serve_def Fatal_def

lemma step_SomeD: "step ev p = Some q \<Longrightarrow> alive p \<and> enabled ev p \<and> q = effect ev p"
  by (cases ev) (auto simp: step_def split: if_splits)

lemma step_mainPC_started: "step ev p = Some q \<Longrightarrow> mainPC q \<noteq> NotStarted"
  by (cases ev) (auto simp: step_def alive_def effect_defs split: if_splits option.splits)

lemma run_mainPC_started:
  "run evs p = Some q \<Longrightarrow> mainPC p \<noteq> NotStarted \<Longrightarrow> mainPC q \<noteq> NotStarted"
proof (induction evs arbitrary: p)
  case Nil
  then show ?case by simp
next
  case (Cons ev evs)
  then show ?case
    by (cases "step ev p") (auto dest: step_mainPC_started)
qed

lemma step_periods: "step ev p = Some q \<Longrightarrow> periods p \<Longrightarrow> periods q"
  by (cases ev)
    (auto simp: step_def alive_def periods_def effect_defs split: if_splits option.splits)

lemma run_periods: "run evs p = Some q \<Longrightarrow> periods p \<Longrightarrow> periods q"
proof (induction evs arbitrary: p)
  case Nil
  then show ?case by simp
next
  case (Cons ev evs)
  then show ?case
    by (cases "step ev p") (auto dest: step_periods)
qed

lemma reachable_alive:
  assumes "main env f initial = (Some c, p0)" and "run evs p0 = Some p" and "Exit p = None"
  shows "alive p" and "Started p = pushes env @ [Serve, Gather]"
proof -
  from main_Some [OF assms(1)] have "mainPC p0 \<noteq> NotStarted"
    "Started p0 = pushes env @ [Serve, Gather]"
    by (simp_all add: initial_def)
  with assms(2) have "mainPC p \<noteq> NotStarted" "Started p = pushes env @ [Serve, Gather]"
    by (auto dest: run_mainPC_started run_Started)
  with assms(3) show "alive p" "Started p = pushes env @ [Serve, Gather]"
    by (simp_all add: alive_def)
qed

lemma main_operator:
  "main cluster basic initial = (Some (the (fst (main cluster basic initial))), operator)"
  by (simp add: operator_def main_cluster_basic)

lemma run_append:
  "run (xs @ ys) p = (case run xs p of None \<Rightarrow> None | Some q \<Rightarrow> run ys q)"
  by (induction xs arbitrary: p) (auto split: option.splits)

lemma step_exits:
  "step ev p = Some q \<Longrightarrow> Exit q \<noteq> None \<Longrightarrow>
     (Exit q = Some 1 \<and> (\<exists>e. ev = ListenAndServeReturns e)) \<or>
     (Exit q = Some 0 \<and> ev = MainReturns)"
  by (cases ev) (auto simp: step_def alive_def effect_defs split: if_splits option.splits)

lemma step_gather_Returned:
  "step ev p = Some q \<Longrightarrow> gatherPC p = Returned \<Longrightarrow> gatherPC q = Returned"
  by (cases ev) (auto simp: step_def alive_def effect_defs split: if_splits option.splits)

lemma run_gather_Returned:
  "run evs p = Some q \<Longrightarrow> gatherPC p = Returned \<Longrightarrow> gatherPC q = Returned"
proof (induction evs arbitrary: p)
  case Nil
  then show ?case by simp
next
  case (Cons ev evs)
  then show ?case
    by (cases "step ev p") (auto dest: step_gather_Returned)
qed

lemma step_mainSig:
  "step ev p = Some q \<Longrightarrow> mainSig p \<Longrightarrow> ev \<noteq> MainSelectSig \<Longrightarrow> mainSig q"
  by (cases ev) (auto simp: step_def alive_def effect_defs split: if_splits option.splits)

lemma step_gatherSig:
  "step ev p = Some q \<Longrightarrow> gatherSig p \<Longrightarrow> gatherPC p \<noteq> NotStarted \<Longrightarrow>
     ev \<noteq> GatherSelectSig \<Longrightarrow> gatherSig q"
  by (cases ev) (auto simp: step_def alive_def effect_defs split: if_splits option.splits)

lemma step_main_InCall:
  "step ev p = Some q \<Longrightarrow> mainPC p = InCall \<Longrightarrow> mainPC q \<noteq> InCall \<Longrightarrow>
     \<exists>err now. ev = SyncReturns err now"
  by (cases ev) (auto simp: step_def alive_def effect_defs split: if_splits option.splits)

lemma step_gather_InCall:
  "step ev p = Some q \<Longrightarrow> gatherPC p = InCall \<Longrightarrow> gatherPC q \<noteq> InCall \<Longrightarrow>
     \<exists>now. ev = SyncMetricsReturns now"
  by (cases ev) (auto simp: step_def alive_def effect_defs split: if_splits option.splits)

lemma step_exit_InCall:
  "step ev p = Some q \<Longrightarrow> mainPC p = InCall \<Longrightarrow> Exit q \<noteq> None \<Longrightarrow>
     \<exists>e. ev = ListenAndServeReturns e"
  by (cases ev) (auto simp: step_def alive_def effect_defs split: if_splits option.splits)

lemma step_main_left:
  "step ev p = Some q \<Longrightarrow> mainPC p = Leaving \<or> mainPC p = Returned \<Longrightarrow>
     mainPC q = Leaving \<or> mainPC q = Returned"
  by (cases ev) (auto simp: step_def alive_def effect_defs split: if_splits option.splits)

lemma run_main_left:
  "run evs p = Some q \<Longrightarrow> mainPC p = Leaving \<or> mainPC p = Returned \<Longrightarrow>
     mainPC q = Leaving \<or> mainPC q = Returned"
proof (induction evs arbitrary: p)
  case Nil
  then show ?case by simp
next
  case (Cons ev evs)
  then show ?case
    by (cases "step ev p") (auto dest: step_main_left)
qed

text \<open>After \<open>main\<close> has taken the signal and written its line, \<open>gather\<close> can still take
  its own signal and write its line; then \<open>main\<close> returns.\<close>

lemma gather_runs_on_after_main_has_taken_the_signal:
  "run [GatherEnters, Deliver SIGTERM, MainSelectSig, GatherSelectSig, MainReturns] operator =
     Some (operator\<lparr>Output :=
         [\<lparr>Data = [(''component'', Str ''jenkins-operator'')], Level = InfoLevel,
            Message = ''Jenkins operator is shutting down...''\<rparr>,
          \<lparr>Data = [(''component'', Str ''jenkins-operator'')], Level = DebugLevel,
            Message = ''Jenkins operator gatherer is shutting down...''\<rparr>],
        Exit := Some 0, mainPC := Returned, gatherPC := Returned,
        gatherPeriod := 30000000000\<rparr>)"
  by (simp add: step_def alive_def operator_eq initial_def effect_defs Second_def
      logger_def WithField_def)

subsection \<open>The tickers\<close>

text \<open>
  C6. Once \<open>main\<close> has reached its loop, whatever the flags and the configuration and
  whatever happens afterwards, the ticker of \<open>main\<close> has a period of 30 seconds
  (30000000000 ns), and so has the ticker of \<open>gather\<close> from the moment \<open>gather\<close>
  makes it: no event changes a period.
\<close>

theorem both_tickers_keep_a_period_of_30_seconds:
  assumes "main env f initial = (Some c, p0)" and "run evs p0 = Some p"
  shows "mainPeriod p = 30 * Second \<and> 30 * Second = 30000000000 \<and>
         (gatherPC p \<noteq> NotStarted \<longrightarrow> gatherPeriod p = 30 * Second) \<and>
         (\<forall>q. step GatherEnters p = Some q \<longrightarrow> gatherPeriod q = 30 * Second)"
proof -
  from main_Some [OF assms(1)] have "periods p0"
    by (simp add: periods_def initial_def)
  with assms(2) have "periods p" by (rule run_periods)
  then have "mainPeriod p = 30 * Second"
    "gatherPC p \<noteq> NotStarted \<longrightarrow> gatherPeriod p = 30 * Second"
    by (simp_all add: periods_def)
  moreover have "\<forall>q. step GatherEnters p = Some q \<longrightarrow> gatherPeriod q = 30 * Second"
    by (auto simp: step_def gather_enter_def split: if_splits)
  moreover have "30 * Second = 30000000000"
    by (simp add: Second_def)
  ultimately show ?thesis by simp
qed

theorem both_tickers_keep_a_period_witness:
  "run [GatherEnters, MainTicker, GatherTicker, MainSelectTick 40, Deliver SIGINT] operator =
     Some (operator\<lparr>mainPC := InCall, mainSig := True, mainStart := 40, gatherPC := AtSelect,
        gatherTick := True, gatherSig := True, gatherPeriod := 30000000000\<rparr>) \<and>
   mainPeriod (operator\<lparr>mainPC := InCall, mainSig := True, mainStart := 40,
        gatherPC := AtSelect, gatherTick := True, gatherSig := True,
        gatherPeriod := 30000000000\<rparr>) = 30000000000 \<and>
   gatherPeriod (operator\<lparr>mainPC := InCall, mainSig := True, mainStart := 40,
        gatherPC := AtSelect, gatherTick := True, gatherSig := True,
        gatherPeriod := 30000000000\<rparr>) = 30000000000"
proof -
  let ?evs = "[GatherEnters, MainTicker, GatherTicker, MainSelectTick 40, Deliver SIGINT]"
  let ?p = "operator\<lparr>mainPC := InCall, mainSig := True, mainStart := 40, gatherPC := AtSelect,
        gatherTick := True, gatherSig := True, gatherPeriod := 30000000000\<rparr>"
  have r: "run ?evs operator = Some ?p"
    by (simp add: step_def alive_def operator_eq initial_def effect_defs Second_def)
  note t = both_tickers_keep_a_period_of_30_seconds [OF main_operator r]
  from t have "mainPeriod ?p = 30000000000"
    by (simp only:)
  with r show ?thesis by simp
qed

subsection \<open>The reconcile loop\<close>

text \<open>
  C1. When \<open>c.Sync()\<close> returns, with an error or without, the process goes on: the
  duration since \<open>start\<close> is logged with "Synced" and observed on \<open>ResyncPeriod\<close>, the
  loop is back at its \<open>select\<close>, and the tick and the signal that wait on the channels
  are still there. An error adds one line at error level, "Error syncing.", and nothing
  else. After a failed \<open>Sync\<close> the next tick is taken as any other, and a tick that
  arrived during the call is taken at once.
\<close>

theorem sync_error_is_logged_and_the_loop_goes_on:
  assumes "alive p" and "mainPC p = InCall"
  shows "step (SyncReturns None now) p =
           Some (p\<lparr>Output := Output p @
                     [\<lparr>Data = WithField ''duration'' (Dur (now - mainStart p)) logger,
                       Level = InfoLevel, Message = ''Synced''\<rparr>],
                   ResyncPeriod := ResyncPeriod p @ [now - mainStart p],
                   mainPC := AtSelect\<rparr>) \<and>
         step (SyncReturns (Some e) now) p =
           Some (p\<lparr>Output := Output p @
                     [\<lparr>Data = WithError e logger, Level = ErrorLevel,
                       Message = ''Error syncing.''\<rparr>,
                      \<lparr>Data = WithField ''duration'' (Dur (now - mainStart p)) logger,
                       Level = InfoLevel, Message = ''Synced''\<rparr>],
                   ResyncPeriod := ResyncPeriod p @ [now - mainStart p],
                   mainPC := AtSelect\<rparr>) \<and>
         (\<exists>q. run [SyncReturns (Some e) now, MainTicker, MainSelectTick t] p = Some q \<and>
              alive q \<and> mainPC q = InCall \<and> mainStart q = t) \<and>
         (mainTick p \<longrightarrow>
            (\<exists>q. run [SyncReturns (Some e) now, MainSelectTick t] p = Some q \<and>
               alive q \<and> mainPC q = InCall \<and> mainStart q = t))"
  using assms
  by (simp add: step_def alive_def effect_defs)

theorem sync_error_witness:
  "alive (the (run [MainTicker, MainSelectTick 100] operator)) \<and>
   mainPC (the (run [MainTicker, MainSelectTick 100] operator)) = InCall \<and>
   run [MainTicker, MainSelectTick 100, SyncReturns (Some ''jenkins is down'') 250] operator =
     Some (operator\<lparr>Output :=
         [\<lparr>Data = [(''component'', Str ''jenkins-operator''), (''error'', Err ''jenkins is down'')],
            Level = ErrorLevel, Message = ''Error syncing.''\<rparr>,
          \<lparr>Data = [(''component'', Str ''jenkins-operator''), (''duration'', Dur 150)],
            Level = InfoLevel, Message = ''Synced''\<rparr>],
       ResyncPeriod := [150], mainStart := 100, mainPC := AtSelect\<rparr>)"
proof -
  have r: "run [MainTicker, MainSelectTick 100] operator =
      Some (operator\<lparr>mainStart := 100, mainPC := InCall\<rparr>)"
    by (simp add: step_def alive_def operator_eq initial_def effect_defs)
  have a: "alive (operator\<lparr>mainStart := 100, mainPC := InCall\<rparr>)"
    "mainPC (operator\<lparr>mainStart := 100, mainPC := InCall\<rparr>) = InCall"
    by (simp_all add: alive_def operator_eq initial_def)
  from sync_error_is_logged_and_the_loop_goes_on [OF a, of 250 "''jenkins is down''" 0]
  have "step (SyncReturns (Some ''jenkins is down'') 250)
      (operator\<lparr>mainStart := 100, mainPC := InCall\<rparr>) =
     Some (operator\<lparr>Output :=
         [\<lparr>Data = [(''component'', Str ''jenkins-operator''), (''error'', Err ''jenkins is down'')],
            Level = ErrorLevel, Message = ''Error syncing.''\<rparr>,
          \<lparr>Data = [(''component'', Str ''jenkins-operator''), (''duration'', Dur 150)],
            Level = InfoLevel, Message = ''Synced''\<rparr>],
       ResyncPeriod := [150], mainStart := 100, mainPC := AtSelect\<rparr>)"
    by (simp add: operator_eq initial_def logger_def WithError_def WithField_def)
  with r a show ?thesis
    by (simp add: step_def alive_def operator_eq initial_def effect_defs)
qed

subsection \<open>The serving goroutine\<close>

text \<open>
  C4. In every state a started process reaches and has not exited from, a return of
  \<open>http.ListenAndServe\<close> (the port is taken, the listener ended) ends the whole process
  with status 1, after one line at fatal level; nothing happens afterwards. It is the
  only event that ends the process with a status other than 0: a return of \<open>c.Sync()\<close>,
  with or without an error, and a return of \<open>c.SyncMetrics()\<close> leave the process
  running.
\<close>

theorem only_serve_ends_the_process_with_a_failure:
  assumes "main env f initial = (Some c, p0)" and "run evs p0 = Some p" and "Exit p = None"
  shows "step (ListenAndServeReturns e) p = Some (serve e p) \<and>
         Exit (serve e p) = Some 1 \<and>
         Output (serve e p) = Output p @
           [\<lparr>Data = [(''error'', Err e)], Level = FatalLevel,
             Message = ''ListenAndServe returned.''\<rparr>] \<and>
         (\<forall>ev. step ev (serve e p) = None) \<and>
         (\<forall>ev q. step ev p = Some q \<and> Exit q \<noteq> None \<and> Exit q \<noteq> Some 0 \<longrightarrow>
            Exit q = Some 1 \<and> (\<exists>e'. ev = ListenAndServeReturns e')) \<and>
         (\<forall>err now q. step (SyncReturns err now) p = Some q \<longrightarrow> Exit q = None) \<and>
         (\<forall>now q. step (SyncMetricsReturns now) p = Some q \<longrightarrow> Exit q = None)"
proof -
  from reachable_alive [OF assms] have a: "alive p" and s: "Serve \<in> set (Started p)"
    by simp_all
  then have "step (ListenAndServeReturns e) p = Some (serve e p)"
    by (simp add: step_def)
  moreover have x: "Exit (serve e p) = Some 1"
    "Output (serve e p) = Output p @
           [\<lparr>Data = [(''error'', Err e)], Level = FatalLevel,
             Message = ''ListenAndServe returned.''\<rparr>]"
    by (simp_all add: serve_def WithError_def WithField_def)
  moreover from x(1) have "\<forall>ev. step ev (serve e p) = None"
    by (simp add: dead_step)
  moreover have "\<forall>ev q. step ev p = Some q \<and> Exit q \<noteq> None \<and> Exit q \<noteq> Some 0 \<longrightarrow>
            Exit q = Some 1 \<and> (\<exists>e'. ev = ListenAndServeReturns e')"
    using step_exits by blast
  moreover have "\<forall>err now q. step (SyncReturns err now) p = Some q \<longrightarrow> Exit q = None"
    using step_exits by fastforce
  moreover have "\<forall>now q. step (SyncMetricsReturns now) p = Some q \<longrightarrow> Exit q = None"
    using step_exits by fastforce
  ultimately show ?thesis by blast
qed

theorem only_serve_ends_the_process_witness:
  "run [MainTicker, MainSelectTick 100] operator \<noteq> None \<and>
   Exit (the (run [MainTicker, MainSelectTick 100] operator)) = None \<and>
   run [MainTicker, MainSelectTick 100, ListenAndServeReturns ''address already in use'']
     operator =
     Some (operator\<lparr>Output := [\<lparr>Data = [(''error'', Err ''address already in use'')],
             Level = FatalLevel, Message = ''ListenAndServe returned.''\<rparr>],
        Exit := Some 1, mainStart := 100, mainPC := InCall\<rparr>) \<and>
   step (SyncReturns None 200)
     (the (run [MainTicker, MainSelectTick 100,
        ListenAndServeReturns ''address already in use''] operator)) = None"
proof -
  let ?p = "operator\<lparr>mainStart := 100, mainPC := InCall\<rparr>"
  have r: "run [MainTicker, MainSelectTick 100] operator = Some ?p"
    by (simp add: step_def alive_def operator_eq initial_def effect_defs)
  have x: "Exit ?p = None"
    by (simp add: operator_eq initial_def)
  note t = only_serve_ends_the_process_with_a_failure
    [OF main_operator r x, of "''address already in use''"]
  from t have 1: "step (ListenAndServeReturns ''address already in use'') ?p =
      Some (serve ''address already in use'' ?p)"
    by (rule conjunct1)
  from t have 2: "step (SyncReturns None 200) (serve ''address already in use'' ?p) = None"
    by blast
  have 3: "serve ''address already in use'' ?p =
     operator\<lparr>Output := [\<lparr>Data = [(''error'', Err ''address already in use'')],
             Level = FatalLevel, Message = ''ListenAndServe returned.''\<rparr>],
        Exit := Some 1, mainStart := 100, mainPC := InCall\<rparr>"
    by (simp add: operator_eq initial_def effect_defs WithError_def WithField_def)
  have 4: "run [MainTicker, MainSelectTick 100, ListenAndServeReturns ''address already in use'']
     operator = Some (serve ''address already in use'' ?p)"
    using r 1 run_append [of "[MainTicker, MainSelectTick 100]"
        "[ListenAndServeReturns ''address already in use'']" operator]
    by simp
  from r x 2 3 4 show ?thesis by simp
qed

subsection \<open>The shutdown signal\<close>

text \<open>
  C2, as stated, fails: an iteration of \<open>gather\<close> that has started does not always run
  to completion. \<open>gather\<close> is inside \<open>c.SyncMetrics()\<close> when SIGTERM arrives; the
  \<open>select\<close> of \<open>main\<close> takes the signal, \<open>main\<close> writes its line and returns, and the
  process exits with status 0; \<open>c.SyncMetrics()\<close> never returns to \<open>gather\<close>.
\<close>

theorem metrics_iteration_is_cut_off_when_main_returns:
  "run [GatherEnters, GatherTicker, GatherSelectTick 3, Deliver SIGTERM, MainSelectSig]
     operator =
     Some (operator\<lparr>Output := [\<lparr>Data = [(''component'', Str ''jenkins-operator'')],
               Level = InfoLevel, Message = ''Jenkins operator is shutting down...''\<rparr>],
             mainPC := Leaving, gatherPC := InCall, gatherSig := True,
             gatherPeriod := 30000000000, gatherStart := 3\<rparr>) \<and>
   step MainReturns
     (operator\<lparr>Output := [\<lparr>Data = [(''component'', Str ''jenkins-operator'')],
               Level = InfoLevel, Message = ''Jenkins operator is shutting down...''\<rparr>],
             mainPC := Leaving, gatherPC := InCall, gatherSig := True,
             gatherPeriod := 30000000000, gatherStart := 3\<rparr>) =
     Some (operator\<lparr>Output := [\<lparr>Data = [(''component'', Str ''jenkins-operator'')],
               Level = InfoLevel, Message = ''Jenkins operator is shutting down...''\<rparr>],
             Exit := Some 0, mainPC := Returned, gatherPC := InCall, gatherSig := True,
             gatherPeriod := 30000000000, gatherStart := 3\<rparr>) \<and>
   step (SyncMetricsReturns 9)
     (operator\<lparr>Output := [\<lparr>Data = [(''component'', Str ''jenkins-operator'')],
               Level = InfoLevel, Message = ''Jenkins operator is shutting down...''\<rparr>],
             Exit := Some 0, mainPC := Returned, gatherPC := InCall, gatherSig := True,
             gatherPeriod := 30000000000, gatherStart := 3\<rparr>) = None"
  by (simp add: step_def alive_def operator_eq initial_def effect_defs Second_def
      logger_def WithField_def)

text \<open>
  C2, amended. SIGINT or SIGTERM puts a value on the signal channel of \<open>main\<close> and, once
  \<open>gather\<close> has registered, on the one of \<open>gather\<close>; the value stays there until the
  \<open>select\<close> of that loop takes it. With the signal waiting and no tick, a \<open>select\<close> can
  only take the signal, and from every state in which its signal waits a loop can go
  on to its return. A loop that has taken the signal begins no further iteration of
  its own. When \<open>main\<close> has taken it, the process is still running and \<open>gather\<close> can do
  whatever it could do before; the return of \<open>main\<close> then ends the process with status
  0, and nothing happens after that return. Neither loop can take its signal while its
  own call is in progress: an iteration of \<open>main\<close> in progress ends only when
  \<open>c.Sync()\<close> returns, and until then only \<open>serve\<close> can end the process; an iteration of
  \<open>gather\<close> in progress is left only when \<open>c.SyncMetrics()\<close> returns.
\<close>

theorem signal_stays_pending_and_ends_the_loop_that_takes_it:
  assumes "alive p"
  shows "step (Deliver s) p = Some (effect (Deliver s) p) \<and>
         mainSig (effect (Deliver s) p) \<and>
         (gatherPC p \<noteq> NotStarted \<longrightarrow> gatherSig (effect (Deliver s) p)) \<and>
         (\<forall>ev q. step ev p = Some q \<and> mainSig p \<and> ev \<noteq> MainSelectSig \<longrightarrow> mainSig q) \<and>
         (\<forall>ev q. step ev p = Some q \<and> gatherSig p \<and> gatherPC p \<noteq> NotStarted \<and>
            ev \<noteq> GatherSelectSig \<longrightarrow> gatherSig q) \<and>
         (mainPC p = AtSelect \<and> mainSig p \<and> \<not> mainTick p \<longrightarrow>
            step MainSelectSig p = Some (main_sig p) \<and>
            (\<forall>now. step (MainSelectTick now) p = None)) \<and>
         (gatherPC p = AtSelect \<and> gatherSig p \<and> \<not> gatherTick p \<longrightarrow>
            step GatherSelectSig p = Some (gather_sig p) \<and>
            (\<forall>now. step (GatherSelectTick now) p = None)) \<and>
         (\<forall>q. step MainSelectSig p = Some q \<longrightarrow>
            mainPC q = Leaving \<and> Exit q = None \<and>
            step MainReturns q = Some (main_return q) \<and>
            enabled GatherSelectSig q = enabled GatherSelectSig p \<and>
            (\<forall>now. enabled (GatherSelectTick now) q = enabled (GatherSelectTick now) p) \<and>
            (\<forall>now. enabled (SyncMetricsReturns now) q = enabled (SyncMetricsReturns now) p) \<and>
            (\<forall>evs q'. run evs q = Some q' \<longrightarrow> mainPC q' = Leaving \<or> mainPC q' = Returned)) \<and>
         (\<forall>q. step MainReturns p = Some q \<longrightarrow>
            mainPC q = Returned \<and> Exit q = Some 0 \<and> (\<forall>ev. step ev q = None)) \<and>
         (\<forall>q evs q'. step GatherSelectSig p = Some q \<and> run evs q = Some q' \<longrightarrow>
            gatherPC q' = Returned) \<and>
         (mainPC p = AtSelect \<and> mainSig p \<longrightarrow>
            (\<exists>q. run [MainSelectSig, MainReturns] p = Some q \<and> Exit q = Some 0)) \<and>
         (mainPC p = InCall \<and> mainSig p \<longrightarrow>
            (\<forall>err now. \<exists>q. run [SyncReturns err now, MainSelectSig, MainReturns] p = Some q \<and>
               Exit q = Some 0)) \<and>
         (gatherPC p = AtSelect \<and> gatherSig p \<longrightarrow>
            (\<exists>q. run [GatherSelectSig] p = Some q \<and> gatherPC q = Returned)) \<and>
         (gatherPC p = InCall \<and> gatherSig p \<longrightarrow>
            (\<forall>now. \<exists>q. run [SyncMetricsReturns now, GatherSelectSig] p = Some q \<and>
               gatherPC q = Returned)) \<and>
         (mainPC p = InCall \<longrightarrow>
            step MainSelectSig p = None \<and>
            (\<forall>ev q. step ev p = Some q \<and> mainPC q \<noteq> InCall \<longrightarrow>
               (\<exists>err now. ev = SyncReturns err now)) \<and>
            (\<forall>ev q. step ev p = Some q \<and> Exit q \<noteq> None \<longrightarrow>
               (\<exists>e. ev = ListenAndServeReturns e))) \<and>
         (gatherPC p = InCall \<longrightarrow>
            step GatherSelectSig p = None \<and>
            (\<forall>ev q. step ev p = Some q \<and> gatherPC q \<noteq> InCall \<longrightarrow>
               (\<exists>now. ev = SyncMetricsReturns now)))"
proof -
  from assms have "step (Deliver s) p = Some (effect (Deliver s) p)"
    by (simp add: step_def)
  moreover have "mainSig (effect (Deliver s) p)"
    "gatherPC p \<noteq> NotStarted \<longrightarrow> gatherSig (effect (Deliver s) p)"
    by simp_all
  moreover have "\<forall>ev q. step ev p = Some q \<and> mainSig p \<and> ev \<noteq> MainSelectSig \<longrightarrow> mainSig q"
    using step_mainSig by blast
  moreover have "\<forall>ev q. step ev p = Some q \<and> gatherSig p \<and> gatherPC p \<noteq> NotStarted \<and>
            ev \<noteq> GatherSelectSig \<longrightarrow> gatherSig q"
    using step_gatherSig by blast
  moreover from assms have "mainPC p = AtSelect \<and> mainSig p \<and> \<not> mainTick p \<longrightarrow>
            step MainSelectSig p = Some (main_sig p) \<and>
            (\<forall>now. step (MainSelectTick now) p = None)"
    by (simp add: step_def)
  moreover from assms have "gatherPC p = AtSelect \<and> gatherSig p \<and> \<not> gatherTick p \<longrightarrow>
            step GatherSelectSig p = Some (gather_sig p) \<and>
            (\<forall>now. step (GatherSelectTick now) p = None)"
    by (simp add: step_def)
  moreover have "\<forall>q. step MainSelectSig p = Some q \<longrightarrow>
            mainPC q = Leaving \<and> Exit q = None \<and>
            step MainReturns q = Some (main_return q) \<and>
            enabled GatherSelectSig q = enabled GatherSelectSig p \<and>
            (\<forall>now. enabled (GatherSelectTick now) q = enabled (GatherSelectTick now) p) \<and>
            (\<forall>now. enabled (SyncMetricsReturns now) q = enabled (SyncMetricsReturns now) p) \<and>
            (\<forall>evs q'. run evs q = Some q' \<longrightarrow> mainPC q' = Leaving \<or> mainPC q' = Returned)"
  proof (intro allI impI)
    fix q assume "step MainSelectSig p = Some q"
    then have q: "q = main_sig p" and e: "alive p" "mainPC p = AtSelect"
      by (auto simp: step_def split: if_splits)
    from q e have 1: "mainPC q = Leaving" "Exit q = None" "alive q"
      by (simp_all add: alive_def effect_defs)
    then have 2: "step MainReturns q = Some (main_return q)"
      by (simp add: step_def)
    from q e have 3: "enabled GatherSelectSig q = enabled GatherSelectSig p"
      "\<forall>now. enabled (GatherSelectTick now) q = enabled (GatherSelectTick now) p"
      "\<forall>now. enabled (SyncMetricsReturns now) q = enabled (SyncMetricsReturns now) p"
      by (simp_all add: alive_def effect_defs)
    from 1(1) have 4: "\<forall>evs q'. run evs q = Some q' \<longrightarrow>
        mainPC q' = Leaving \<or> mainPC q' = Returned"
      using run_main_left by blast
    from 1 2 3 4 show "mainPC q = Leaving \<and> Exit q = None \<and>
            step MainReturns q = Some (main_return q) \<and>
            enabled GatherSelectSig q = enabled GatherSelectSig p \<and>
            (\<forall>now. enabled (GatherSelectTick now) q = enabled (GatherSelectTick now) p) \<and>
            (\<forall>now. enabled (SyncMetricsReturns now) q = enabled (SyncMetricsReturns now) p) \<and>
            (\<forall>evs q'. run evs q = Some q' \<longrightarrow> mainPC q' = Leaving \<or> mainPC q' = Returned)"
      by (intro conjI)
  qed
  moreover have "\<forall>q. step MainReturns p = Some q \<longrightarrow>
            mainPC q = Returned \<and> Exit q = Some 0 \<and> (\<forall>ev. step ev q = None)"
  proof (intro allI impI)
    fix q assume "step MainReturns p = Some q"
    then have "mainPC q = Returned" "Exit q = Some 0"
      by (auto simp: step_def effect_defs split: if_splits)
    then show "mainPC q = Returned \<and> Exit q = Some 0 \<and> (\<forall>ev. step ev q = None)"
      by (simp add: dead_step)
  qed
  moreover have "\<forall>q evs q'. step GatherSelectSig p = Some q \<and> run evs q = Some q' \<longrightarrow>
            gatherPC q' = Returned"
  proof (intro allI impI)
    fix q evs q' assume h: "step GatherSelectSig p = Some q \<and> run evs q = Some q'"
    then have "gatherPC q = Returned"
      by (auto simp: step_def effect_defs split: if_splits)
    with h show "gatherPC q' = Returned" by (auto dest: run_gather_Returned)
  qed
  moreover from assms have "mainPC p = AtSelect \<and> mainSig p \<longrightarrow>
            (\<exists>q. run [MainSelectSig, MainReturns] p = Some q \<and> Exit q = Some 0)"
    by (simp add: step_def alive_def effect_defs)
  moreover from assms have "mainPC p = InCall \<and> mainSig p \<longrightarrow>
            (\<forall>err now. \<exists>q. run [SyncReturns err now, MainSelectSig, MainReturns] p = Some q \<and>
               Exit q = Some 0)"
    by (simp add: step_def alive_def effect_defs split: option.splits)
  moreover from assms have "gatherPC p = AtSelect \<and> gatherSig p \<longrightarrow>
            (\<exists>q. run [GatherSelectSig] p = Some q \<and> gatherPC q = Returned)"
    by (simp add: step_def alive_def effect_defs)
  moreover from assms have "gatherPC p = InCall \<and> gatherSig p \<longrightarrow>
            (\<forall>now. \<exists>q. run [SyncMetricsReturns now, GatherSelectSig] p = Some q \<and>
               gatherPC q = Returned)"
    by (simp add: step_def alive_def effect_defs)
  moreover have "mainPC p = InCall \<longrightarrow>
            step MainSelectSig p = None \<and>
            (\<forall>ev q. step ev p = Some q \<and> mainPC q \<noteq> InCall \<longrightarrow>
               (\<exists>err now. ev = SyncReturns err now)) \<and>
            (\<forall>ev q. step ev p = Some q \<and> Exit q \<noteq> None \<longrightarrow>
               (\<exists>e. ev = ListenAndServeReturns e))"
  proof -
    have "mainPC p = InCall \<longrightarrow> step MainSelectSig p = None"
      by (simp add: step_def)
    then show ?thesis using step_main_InCall step_exit_InCall by blast
  qed
  moreover have "gatherPC p = InCall \<longrightarrow>
            step GatherSelectSig p = None \<and>
            (\<forall>ev q. step ev p = Some q \<and> gatherPC q \<noteq> InCall \<longrightarrow>
               (\<exists>now. ev = SyncMetricsReturns now))"
  proof -
    have "gatherPC p = InCall \<longrightarrow> step GatherSelectSig p = None"
      by (simp add: step_def)
    then show ?thesis using step_gather_InCall by blast
  qed
  ultimately show ?thesis by blast
qed

theorem signal_stays_pending_witness:
  "run [GatherEnters] operator =
     Some (operator\<lparr>gatherPC := AtSelect, gatherPeriod := 30000000000\<rparr>) \<and>
   alive (operator\<lparr>gatherPC := AtSelect, gatherPeriod := 30000000000\<rparr>) \<and>
   step (Deliver SIGINT) (operator\<lparr>gatherPC := AtSelect, gatherPeriod := 30000000000\<rparr>) =
     Some (operator\<lparr>mainSig := True, gatherPC := AtSelect, gatherSig := True,
             gatherPeriod := 30000000000\<rparr>) \<and>
   mainSig (effect (Deliver SIGINT)
     (operator\<lparr>gatherPC := AtSelect, gatherPeriod := 30000000000\<rparr>)) \<and>
   gatherSig (effect (Deliver SIGINT)
     (operator\<lparr>gatherPC := AtSelect, gatherPeriod := 30000000000\<rparr>))"
proof -
  let ?p = "operator\<lparr>gatherPC := AtSelect, gatherPeriod := 30000000000\<rparr>"
  have r: "run [GatherEnters] operator = Some ?p"
    by (simp add: step_def alive_def operator_eq initial_def effect_defs Second_def)
  have a: "alive ?p"
    by (simp add: alive_def operator_eq initial_def)
  have g: "gatherPC ?p \<noteq> NotStarted" by simp
  have e: "effect (Deliver SIGINT) ?p =
      operator\<lparr>mainSig := True, gatherPC := AtSelect, gatherSig := True,
        gatherPeriod := 30000000000\<rparr>"
    by (simp add: operator_eq initial_def)
  note t = signal_stays_pending_and_ends_the_loop_that_takes_it [OF a, of SIGINT]
  from t have 1: "step (Deliver SIGINT) ?p = Some (effect (Deliver SIGINT) ?p)"
    by (rule conjunct1)
  from t have 2: "mainSig (effect (Deliver SIGINT) ?p)"
    by (rule conjunct1 [OF conjunct2])
  from t have "gatherPC ?p \<noteq> NotStarted \<longrightarrow> gatherSig (effect (Deliver SIGINT) ?p)"
    by (rule conjunct1 [OF conjunct2 [OF conjunct2]])
  with g have 3: "gatherSig (effect (Deliver SIGINT) ?p)" by (rule rev_mp)
  from 1 e have 4: "step (Deliver SIGINT) ?p =
      Some (operator\<lparr>mainSig := True, gatherPC := AtSelect, gatherSig := True,
             gatherPeriod := 30000000000\<rparr>)"
    by (simp only:)
  from r a 4 2 3 show ?thesis by (intro conjI)
qed

text \<open>
  C3, as stated, fails: with a tick and the signal both waiting, the \<open>select\<close> of
  \<open>main\<close> can take the tick and start \<open>c.Sync()\<close>; the signal waits on.
\<close>

theorem select_may_take_the_tick_while_the_signal_is_pending:
  "run [MainTicker, Deliver SIGTERM] operator =
     Some (operator\<lparr>mainTick := True, mainSig := True\<rparr>) \<and>
   mainPC (operator\<lparr>mainTick := True, mainSig := True\<rparr>) = AtSelect \<and>
   step (MainSelectTick 7) (operator\<lparr>mainTick := True, mainSig := True\<rparr>) =
     Some (operator\<lparr>mainSig := True, mainStart := 7, mainPC := InCall\<rparr>)"
  by (simp add: step_def alive_def operator_eq initial_def effect_defs)

text \<open>
  C3, amended. When a tick and the signal both wait at the \<open>select\<close> of a loop, either
  branch can be taken: the loop can take the signal, after which it starts no
  iteration and returns (for \<open>main\<close>, the process then exits with status 0), and it can
  start a new iteration, during which the signal stays on its channel. No loop can
  take its signal while its own call is in progress.
\<close>

theorem select_takes_either_branch_when_both_are_ready:
  assumes "alive p"
  shows "(mainPC p = AtSelect \<and> mainTick p \<and> mainSig p \<longrightarrow>
            step MainSelectSig p = Some (main_sig p) \<and>
            mainPC (main_sig p) = Leaving \<and>
            (\<forall>t. step (MainSelectTick t) (main_sig p) = None) \<and>
            run [MainSelectSig, MainReturns] p = Some (main_return (main_sig p)) \<and>
            mainPC (main_return (main_sig p)) = Returned \<and>
            Exit (main_return (main_sig p)) = Some 0 \<and>
            step (MainSelectTick now) p = Some (main_tick_begin now p) \<and>
            mainPC (main_tick_begin now p) = InCall \<and> mainSig (main_tick_begin now p) \<and>
            Exit (main_tick_begin now p) = None) \<and>
         (gatherPC p = AtSelect \<and> gatherTick p \<and> gatherSig p \<longrightarrow>
            step GatherSelectSig p = Some (gather_sig p) \<and>
            gatherPC (gather_sig p) = Returned \<and>
            step (GatherSelectTick now) p = Some (gather_tick_begin now p) \<and>
            gatherPC (gather_tick_begin now p) = InCall \<and>
            gatherSig (gather_tick_begin now p)) \<and>
         (mainPC p = InCall \<longrightarrow> step MainSelectSig p = None) \<and>
         (gatherPC p = InCall \<longrightarrow> step GatherSelectSig p = None)"
  using assms
  by (simp add: step_def alive_def effect_defs)

theorem select_takes_either_branch_witness:
  "alive (operator\<lparr>mainTick := True, mainSig := True\<rparr>) \<and>
   step MainSelectSig (operator\<lparr>mainTick := True, mainSig := True\<rparr>) =
     Some (main_sig (operator\<lparr>mainTick := True, mainSig := True\<rparr>)) \<and>
   run [MainSelectSig, MainReturns] (operator\<lparr>mainTick := True, mainSig := True\<rparr>) =
     Some (main_return (main_sig (operator\<lparr>mainTick := True, mainSig := True\<rparr>))) \<and>
   step (MainSelectTick 7) (operator\<lparr>mainTick := True, mainSig := True\<rparr>) =
     Some (main_tick_begin 7 (operator\<lparr>mainTick := True, mainSig := True\<rparr>)) \<and>
   mainPC (main_tick_begin 7 (operator\<lparr>mainTick := True, mainSig := True\<rparr>)) = InCall \<and>
   mainPC (main_return (main_sig (operator\<lparr>mainTick := True, mainSig := True\<rparr>))) =
     Returned \<and>
   Exit (main_return (main_sig (operator\<lparr>mainTick := True, mainSig := True\<rparr>))) = Some 0"
proof -
  let ?p = "operator\<lparr>mainTick := True, mainSig := True\<rparr>"
  have a: "alive ?p"
    by (simp add: alive_def operator_eq initial_def)
  have b: "mainPC ?p = AtSelect \<and> mainTick ?p \<and> mainSig ?p"
    by (simp add: operator_eq initial_def)
  from select_takes_either_branch_when_both_are_ready [OF a, of 7]
  have "mainPC ?p = AtSelect \<and> mainTick ?p \<and> mainSig ?p \<longrightarrow>
            step MainSelectSig ?p = Some (main_sig ?p) \<and>
            mainPC (main_sig ?p) = Leaving \<and>
            (\<forall>t. step (MainSelectTick t) (main_sig ?p) = None) \<and>
            run [MainSelectSig, MainReturns] ?p = Some (main_return (main_sig ?p)) \<and>
            mainPC (main_return (main_sig ?p)) = Returned \<and>
            Exit (main_return (main_sig ?p)) = Some 0 \<and>
            step (MainSelectTick 7) ?p = Some (main_tick_begin 7 ?p) \<and>
            mainPC (main_tick_begin 7 ?p) = InCall \<and> mainSig (main_tick_begin 7 ?p) \<and>
            Exit (main_tick_begin 7 ?p) = None"
    by (rule conjunct1)
  from mp [OF this b] a show ?thesis by (simp only: simp_thms)
qed

end
